theory Spec2Isabelle
  imports
    Complex_Main
    "HOL-Library.Char_ord"
    "HOL-Library.List_Lexorder"
    "HOL-Library.Multiset"
    "HOL-Library.AList"
    "HOL-Library.Word"
begin

unbundle bit_operations_syntax

section \<open>The SQL connector of unstructured-ingest\<close>

text \<open>
  A shallow embedding of \<^verbatim>\<open>unstructured_ingest/v2/processes/connectors/sql/sql.py\<close>.
  A Python string is the \<^typ>\<open>string\<close> of its UTF-8 bytes: concatenation and equality
  are those of the text, and the order of \<^theory_text>\<open>List_Lexorder\<close> over
  \<^theory_text>\<open>Char_ord\<close> (byte by byte, a proper prefix first) is the order in which
  Python compares strings (code point by code point), which UTF-8 preserves. Python's unbounded integers are \<^typ>\<open>int\<close>. Every exception
  the modelled code can raise is a value of \<open>py_error\<close>.
\<close>

datatype py_error =
    ZeroDivisionError
  | TypeError
  | ValueError
  | OverflowError
  | AttributeError
  | ParserError
  | DatabaseError

subsection \<open>Python sequences\<close>

text \<open>
  \<^verbatim>\<open>xs[i:j]\<close>: a negative bound counts from the end, and both bounds are clamped to
  the list, so a slice never raises. \<^verbatim>\<open>range(n)\<close> is empty for \<open>n \<le> 0\<close>.
\<close>

definition slice_bound :: "int \<Rightarrow> nat \<Rightarrow> nat" where
  "slice_bound i n = (if i < 0 then nat (max 0 (i + int n)) else min (nat i) n)"

definition py_slice :: "'a list \<Rightarrow> int \<Rightarrow> int \<Rightarrow> 'a list" where
  "py_slice xs i j =
     (let lo = slice_bound i (length xs); hi = slice_bound j (length xs)
      in take (hi - lo) (drop lo xs))"

definition py_range :: "int \<Rightarrow> int list" where
  "py_range n = map int [0..<nat n]"

text \<open>\<^verbatim>\<open>sep.join(xs)\<close>\<close>

fun py_join :: "string \<Rightarrow> string list \<Rightarrow> string" where
  "py_join sep [] = []"
| "py_join sep [x] = x"
| "py_join sep (x # y # ys) = x @ sep @ py_join sep (y # ys)"

subsection \<open>The indexer (\<^verbatim>\<open>SQLIndexer\<close>)\<close>

record SQLIndexerConfig =
  ix_table_name :: string
  ix_id_column :: string
  ix_batch_size :: int

text \<open>
  \<^verbatim>\<open>SqlBatchFileData\<close> as \<^verbatim>\<open>SQLIndexer.run\<close> fills it: the connector type, the
  \<^verbatim>\<open>date_processed\<close> of its metadata, the table name and identifier column of its
  additional metadata, and the identifiers of its batch items in the order of the list.
\<close>

record SqlBatchFileData =
  connector_type :: string
  date_processed :: string
  bf_table_name :: string
  bf_id_column :: string
  batch_items :: "string list"

text \<open>
  \<^verbatim>\<open>_get_doc_ids\<close>. The argument is the list of \<^verbatim>\<open>result[0]\<close> over the rows that
  \<^verbatim>\<open>cursor.fetchall()\<close> returned for the identifier query, in the order the store
  returned them (the annotation is \<^verbatim>\<open>list[str]\<close>).
\<close>

definition get_doc_ids :: "string list \<Rightarrow> string list" where
  "get_doc_ids results = sort results"

text \<open>
  The list comprehension of \<^verbatim>\<open>SQLIndexer.run\<close> that builds \<^verbatim>\<open>id_batches\<close>. The floor
  division \<^verbatim>\<open>//\<close> raises on a zero batch size; on \<^typ>\<open>int\<close>, \<open>div\<close> rounds down as
  \<^verbatim>\<open>//\<close> does. A \<^verbatim>\<open>frozenset\<close> of strings is a \<^typ>\<open>string set\<close>.
\<close>

definition id_batches :: "int \<Rightarrow> string list \<Rightarrow> py_error + string set list" where
  "id_batches bsz ids =
     (if bsz = 0 then Inl ZeroDivisionError
      else Inr (map (\<lambda>i. set (py_slice ids (i * bsz) ((i + 1) * bsz)))
                    (py_range ((int (length ids) + bsz - 1) div bsz))))"

text \<open>
  \<^verbatim>\<open>SQLIndexer.run\<close>. Two things come from outside the program: the order in which
  iterating a \<^verbatim>\<open>frozenset\<close> lists its members (\<open>iter\<close>, fixed within one interpreter
  process), and the clock read by \<^verbatim>\<open>str(time())\<close> when the \<open>k\<close>-th descriptor is
  yielded (\<open>now k\<close>). \<^verbatim>\<open>str(b)\<close> of a string identifier is the identifier. The
  generator is modelled by the list of what it yields; the comprehension is evaluated
  before the first yield, so its error comes before any descriptor.
\<close>

definition run_indexer ::
  "(string set \<Rightarrow> string list) \<Rightarrow> (nat \<Rightarrow> string) \<Rightarrow> string \<Rightarrow> SQLIndexerConfig
     \<Rightarrow> string list \<Rightarrow> py_error + SqlBatchFileData list" where
  "run_indexer iter now ctype cfg results =
     (let ids = get_doc_ids results in
      case id_batches (ix_batch_size cfg) ids of
        Inl e \<Rightarrow> Inl e
      | Inr bs \<Rightarrow>
          Inr (map (\<lambda>(k, batch).
                      \<lparr> connector_type = ctype,
                        date_processed = now k,
                        bf_table_name = ix_table_name cfg,
                        bf_id_column = ix_id_column cfg,
                        batch_items = iter batch \<rparr>)
                   (enumerate 0 bs)))"

subsection \<open>Python values\<close>

text \<open>
  A Python \<^verbatim>\<open>float\<close>, idealised: a finite float is the rational it denotes (rounding
  to 53 bits is not modelled), beside the three special values.
\<close>

datatype pyfloat = Fin rat | NaN | PosInf | NegInf

text \<open>
  The values an element file holds (what \<^verbatim>\<open>json.load\<close> returns). A \<^verbatim>\<open>dict\<close> is an
  association list in insertion order, with string keys.
\<close>

datatype json =
    JNull
  | JBool bool
  | JInt int
  | JFloat pyfloat
  | JStr string
  | JList "json list"
  | JDict "(string \<times> json) list"

text \<open>
  A naive \<^verbatim>\<open>datetime\<close> (no zone attached): the microseconds between
  \<^verbatim>\<open>1970-01-01T00:00:00\<close> and it, on its own time line. \<^verbatim>\<open>datetime.min\<close> and
  \<^verbatim>\<open>datetime.max\<close> bound it.
\<close>

datatype datetime = Datetime int

definition datetime_min :: int where
  "datetime_min = - 62135596800 * 1000000"

definition datetime_max :: int where
  "datetime_max = 253402300799 * 1000000 + 999999"

text \<open>The calendar date of a datetime, as the number of its day counted from 1970-01-01.\<close>

fun date_of :: "datetime \<Rightarrow> int" where
  "date_of (Datetime us) = us div (86400 * 1000000)"

text \<open>A cell of a dataframe: a JSON-like Python value, or a datetime.\<close>

datatype cell = Py json | Dt datetime

text \<open>
  What the program takes from the Python runtime and from the libraries it calls, as
  parameters:
  \<^item> \<open>str_to_float s\<close>: \<^verbatim>\<open>float(s)\<close> of a string, \<open>None\<close> where it raises ValueError;
  \<^item> \<open>utc_offset t\<close>: the offset in seconds of the local zone at epoch second \<open>t\<close>;
  \<^item> \<open>dateutil_parse s\<close>: \<^verbatim>\<open>dateutil.parser.parse(s)\<close> of a string;
  \<^item> \<open>json_dumps v\<close>: \<^verbatim>\<open>json.dumps(v)\<close>, total on JSON values;
  \<^item> \<open>str_other c\<close>: \<^verbatim>\<open>str(c)\<close> of a float, list, dict or datetime.
\<close>

record py_env =
  str_to_float :: "string \<Rightarrow> pyfloat option"
  utc_offset :: "int \<Rightarrow> int"
  dateutil_parse :: "string \<Rightarrow> py_error + datetime"
  json_dumps :: "json \<Rightarrow> string"
  str_other :: "cell \<Rightarrow> string"

subsection \<open>\<^verbatim>\<open>parse_date_string\<close>\<close>

text \<open>
  \<^verbatim>\<open>isinstance(x, int)\<close>: true of an \<^verbatim>\<open>int\<close> and of a \<^verbatim>\<open>bool\<close>, which is a
  subclass of \<^verbatim>\<open>int\<close>.
\<close>

fun isinstance_int :: "cell \<Rightarrow> bool" where
  "isinstance_int (Py (JInt i)) = True"
| "isinstance_int (Py (JBool b)) = True"
| "isinstance_int c = False"

text \<open>
  \<^verbatim>\<open>float(x)\<close>. An \<^verbatim>\<open>int\<close> whose nearest float would exceed the largest one raises
  OverflowError; a string is parsed or raises ValueError; \<^verbatim>\<open>None\<close>, a list, a dict
  and a datetime raise TypeError.
\<close>

definition float_max_int :: int where
  "float_max_int = 2 ^ 1024 - 2 ^ 970"

fun py_float :: "py_env \<Rightarrow> cell \<Rightarrow> py_error + pyfloat" where
  "py_float env (Py (JInt i)) =
     (if \<bar>i\<bar> < float_max_int then Inr (Fin (of_int i)) else Inl OverflowError)"
| "py_float env (Py (JBool b)) = Inr (Fin (if b then 1 else 0))"
| "py_float env (Py (JFloat f)) = Inr f"
| "py_float env (Py (JStr s)) =
     (case str_to_float env s of None \<Rightarrow> Inl ValueError | Some f \<Rightarrow> Inr f)"
| "py_float env c = Inl TypeError"

text \<open>\<^verbatim>\<open>x / 1000\<close> on floats.\<close>

fun div_1000 :: "pyfloat \<Rightarrow> pyfloat" where
  "div_1000 (Fin q) = Fin (q / 1000)"
| "div_1000 f = f"

text \<open>Rounding to the nearest integer, ties to the even one, as the C time functions do.\<close>

definition round_half_even :: "rat \<Rightarrow> int" where
  "round_half_even x =
     (let f = \<lfloor>x\<rfloor>; d = x - of_int f
      in if d < 1 / 2 then f
         else if 1 / 2 < d then f + 1
         else if even f then f else f + 1)"

text \<open>
  \<^verbatim>\<open>datetime.fromtimestamp(t)\<close>: the local naive datetime of epoch second \<open>t\<close>, rounded
  to the microsecond. It raises on a NaN (ValueError), on an infinity (OverflowError)
  and when the result leaves the years 1 to 9999 (ValueError). A platform may refuse
  further timestamps inside that range; that is not modelled.
\<close>

fun fromtimestamp :: "py_env \<Rightarrow> pyfloat \<Rightarrow> py_error + datetime" where
  "fromtimestamp env (Fin t) =
     (let us = round_half_even (t * 1000000);
          local = us + utc_offset env (us div 1000000) * 1000000
      in if datetime_min \<le> local \<and> local \<le> datetime_max then Inr (Datetime local)
         else Inl ValueError)"
| "fromtimestamp env NaN = Inl ValueError"
| "fromtimestamp env f = Inl OverflowError"

text \<open>
  \<^verbatim>\<open>dateutil.parser.parse(x)\<close>: anything but a string (or bytes, or a stream, which a
  cell never is) raises TypeError.
\<close>

fun parser_parse :: "py_env \<Rightarrow> cell \<Rightarrow> py_error + datetime" where
  "parser_parse env (Py (JStr s)) = dateutil_parse env s"
| "parser_parse env c = Inl TypeError"

text \<open>
  The body of the \<^verbatim>\<open>try\<close> block of \<^verbatim>\<open>parse_date_string\<close>: the numeric-epoch
  interpretation.
\<close>

definition epoch_path :: "py_env \<Rightarrow> cell \<Rightarrow> py_error + datetime" where
  "epoch_path env date_value =
     (case py_float env date_value of
        Inl e \<Rightarrow> Inl e
      | Inr f \<Rightarrow>
          fromtimestamp env (if isinstance_int date_value then div_1000 f else f))"

text \<open>What the program writes to its logger, where a claim speaks of it.\<close>

datatype log_record =
    DebugNotATimestamp cell py_error
  | WarningDropColumns "string set"
  | InfoAddColumns "string set"
  | WarningSkipDelete string

text \<open>
  \<^verbatim>\<open>parse_date_string\<close>: the log records written, and the datetime returned or the
  exception raised. \<^verbatim>\<open>except Exception\<close> catches every error of the numeric path.
\<close>

definition parse_date_string :: "py_env \<Rightarrow> cell \<Rightarrow> log_record list \<times> (py_error + datetime)" where
  "parse_date_string env date_value =
     (case epoch_path env date_value of
        Inr d \<Rightarrow> ([], Inr d)
      | Inl e \<Rightarrow> ([DebugNotATimestamp date_value e], parser_parse env date_value))"

subsection \<open>\<^verbatim>\<open>str\<close>\<close>

text \<open>The decimal numeral of an \<^verbatim>\<open>int\<close>, as \<^verbatim>\<open>str\<close> prints it.\<close>

function str_of_nat :: "nat \<Rightarrow> string" where
  "str_of_nat n =
     (if n < 10 then [char_of (48 + n)]
      else str_of_nat (n div 10) @ [char_of (48 + n mod 10)])"
  by pat_completeness auto
termination
  by (relation "measure id") auto

definition str_of_int :: "int \<Rightarrow> string" where
  "str_of_int i = (if i < 0 then CHR ''-'' # str_of_nat (nat (- i)) else str_of_nat (nat i))"

text \<open>
  \<^verbatim>\<open>str(x)\<close> of a cell. \<^verbatim>\<open>None\<close>, the booleans, the integers and the strings are
  written out; the text of a float, a list, a dict or a datetime comes from the runtime.
\<close>

fun py_str :: "py_env \<Rightarrow> cell \<Rightarrow> string" where
  "py_str env (Py JNull) = ''None''"
| "py_str env (Py (JBool b)) = (if b then ''True'' else ''False'')"
| "py_str env (Py (JInt i)) = str_of_int i"
| "py_str env (Py (JStr s)) = s"
| "py_str env c = str_other env c"

subsection \<open>Dataframes\<close>

text \<open>
  A \<^verbatim>\<open>pandas.DataFrame\<close>: its column labels in order, and its rows, each holding one
  cell per column in that order. A frame built from a list of dicts has distinct labels.
\<close>

record dataframe =
  df_columns :: "string list"
  df_rows :: "cell list list"

definition wf_dataframe :: "dataframe \<Rightarrow> bool" where
  "wf_dataframe df \<longleftrightarrow>
     distinct (df_columns df) \<and> (\<forall>row \<in> set (df_rows df). length row = length (df_columns df))"

text \<open>The cell of a row under a column label, and a whole column.\<close>

definition row_get :: "string list \<Rightarrow> cell list \<Rightarrow> string \<Rightarrow> cell option" where
  "row_get cols row c = map_of (zip cols row) c"

definition df_column :: "dataframe \<Rightarrow> string \<Rightarrow> cell option list" where
  "df_column df c = map (\<lambda>row. row_get (df_columns df) row c) (df_rows df)"

text \<open>Running a list of fallible steps in order, stopping at the first exception.\<close>

fun sequence_err :: "('e + 'a) list \<Rightarrow> 'e + 'a list" where
  "sequence_err [] = Inr []"
| "sequence_err (x # xs) =
     (case x of
        Inl e \<Rightarrow> Inl e
      | Inr v \<Rightarrow> (case sequence_err xs of Inl e \<Rightarrow> Inl e | Inr vs \<Rightarrow> Inr (v # vs)))"

text \<open>
  \<^verbatim>\<open>df[column] = df[column].apply(f)\<close>: \<open>f\<close> runs on the cells of the column from the
  first row to the last, and its first exception ends the statement.
\<close>

definition apply_column ::
  "(cell \<Rightarrow> py_error + cell) \<Rightarrow> string \<Rightarrow> dataframe \<Rightarrow> py_error + dataframe" where
  "apply_column f column df =
     (case sequence_err
             (map (\<lambda>row. sequence_err
                     (map (\<lambda>(c, v). if c = column then f v else Inr v)
                          (zip (df_columns df) row)))
                  (df_rows df)) of
        Inl e \<Rightarrow> Inl e
      | Inr rows \<Rightarrow> Inr (df\<lparr>df_rows := rows\<rparr>))"

text \<open>
  \<^verbatim>\<open>for column in filter(lambda x: x in df.columns, names): df[column] = ...apply(f)\<close>
\<close>

fun for_columns ::
  "(cell \<Rightarrow> py_error + cell) \<Rightarrow> string list \<Rightarrow> dataframe \<Rightarrow> py_error + dataframe" where
  "for_columns f [] df = Inr df"
| "for_columns f (column # names) df =
     (if column \<in> set (df_columns df)
      then (case apply_column f column df of
              Inl e \<Rightarrow> Inl e
            | Inr df' \<Rightarrow> for_columns f names df')
      else for_columns f names df)"

subsection \<open>The stager's \<^verbatim>\<open>conform_dataframe\<close>\<close>

definition DATE_COLUMNS :: "string list" where
  "DATE_COLUMNS = [''date_created'', ''date_modified'', ''date_processed'', ''last_modified'']"

definition STRUCTURED_COLUMNS :: "string list" where
  "STRUCTURED_COLUMNS = [''permissions_data'', ''record_locator'', ''points'', ''links'']"

definition STRINGIFIED_COLUMNS :: "string list" where
  "STRINGIFIED_COLUMNS = [''version'', ''page_number'', ''regex_metadata'']"

text \<open>\<^verbatim>\<open>parse_date_string\<close> as a cell transform (its debug record is not kept here).\<close>

definition date_cell :: "py_env \<Rightarrow> cell \<Rightarrow> py_error + cell" where
  "date_cell env v = map_sum id Dt (snd (parse_date_string env v))"

text \<open>\<^verbatim>\<open>lambda x: json.dumps(x) if isinstance(x, (list, dict)) else None\<close>\<close>

fun structured_cell :: "py_env \<Rightarrow> cell \<Rightarrow> cell" where
  "structured_cell env (Py (JList xs)) = Py (JStr (json_dumps env (JList xs)))"
| "structured_cell env (Py (JDict kvs)) = Py (JStr (json_dumps env (JDict kvs)))"
| "structured_cell env c = Py JNull"

text \<open>\<^verbatim>\<open>str\<close> as a cell transform.\<close>

definition str_cell :: "py_env \<Rightarrow> cell \<Rightarrow> cell" where
  "str_cell env v = Py (JStr (py_str env v))"

text \<open>
  \<^verbatim>\<open>SQLUploadStager.conform_dataframe\<close>: the three loops in the order of the source. Only
  the first can raise.
\<close>

definition conform_dataframe :: "py_env \<Rightarrow> dataframe \<Rightarrow> py_error + dataframe" where
  "conform_dataframe env df =
     (case for_columns (date_cell env) DATE_COLUMNS df of
        Inl e \<Rightarrow> Inl e
      | Inr df1 \<Rightarrow>
          (case for_columns (\<lambda>x. Inr (structured_cell env x)) STRUCTURED_COLUMNS df1 of
             Inl e \<Rightarrow> Inl e
           | Inr df2 \<Rightarrow> for_columns (\<lambda>x. Inr (str_cell env x)) STRINGIFIED_COLUMNS df2))"

subsection \<open>A concrete runtime, for evaluating the model\<close>

text \<open>
  Theorems about the program hold for every runtime \<open>env\<close>. To run the model on
  concrete inputs a runtime is fixed here: the zone is UTC, \<^verbatim>\<open>float\<close> of a string
  accepts the unsigned decimal numerals, \<^verbatim>\<open>dateutil\<close> knows the one date
  \<^verbatim>\<open>1970-01-02\<close>, and \<^verbatim>\<open>json.dumps\<close> is exact on values without floats and
  without characters to escape.
\<close>

fun digits_value :: "nat \<Rightarrow> string \<Rightarrow> nat option" where
  "digits_value acc [] = Some acc"
| "digits_value acc (c # cs) =
     (if CHR ''0'' \<le> c \<and> c \<le> CHR ''9''
      then digits_value (10 * acc + (of_char c - 48)) cs
      else None)"

definition float_of_digits :: "string \<Rightarrow> pyfloat option" where
  "float_of_digits s =
     (if s = [] then None else map_option (\<lambda>n. Fin (of_nat n)) (digits_value 0 s))"

fun sample_dumps :: "json \<Rightarrow> string" where
  "sample_dumps JNull = ''null''"
| "sample_dumps (JBool b) = (if b then ''true'' else ''false'')"
| "sample_dumps (JInt i) = str_of_int i"
| "sample_dumps (JFloat f) =
     (case f of Fin q \<Rightarrow> str_of_int \<lfloor>q\<rfloor> @ ''.0'' | NaN \<Rightarrow> ''NaN''
      | PosInf \<Rightarrow> ''Infinity'' | NegInf \<Rightarrow> ''-Infinity'')"
| "sample_dumps (JStr s) = [CHR 0x22] @ s @ [CHR 0x22]"
| "sample_dumps (JList xs) = ''['' @ py_join '', '' (map sample_dumps xs) @ '']''"
| "sample_dumps (JDict kvs) =
     ''{'' @ py_join '', ''
              (map (\<lambda>(k, v). [CHR 0x22] @ k @ [CHR 0x22] @ '': '' @ sample_dumps v) kvs)
       @ ''}''"

definition sample_env :: py_env where
  "sample_env =
     \<lparr> str_to_float = float_of_digits,
       utc_offset = (\<lambda>t. 0),
       dateutil_parse =
         (\<lambda>s. if s = ''1970-01-02'' then Inr (Datetime 86400000000) else Inl ParserError),
       json_dumps = sample_dumps,
       str_other = (\<lambda>c. case c of Py j \<Rightarrow> sample_dumps j | Dt d \<Rightarrow> ''datetime'') \<rparr>"

text \<open>
  A staged dataframe of two rows, for evaluating the normalization: an epoch in
  milliseconds and a date string in its date column.
\<close>

definition sample_frame :: dataframe where
  "sample_frame =
     \<lparr> df_columns = [''id'', ''date_created'', ''points'', ''links'', ''version'', ''page_number''],
       df_rows =
         [[Py (JStr ''a''), Py (JInt 86400000), Py (JList [JInt 1, JInt 2]), Py (JStr ''x''),
           Py JNull, Py (JInt 7)],
          [Py (JStr ''b''), Py (JStr ''1970-01-02''), Py (JDict [(''k'', JNull)]), Py (JInt 5),
           Py (JStr ''1.0''), Py JNull]] \<rparr>"

text \<open>A staged dataframe of one row whose element has no creation date.\<close>

definition null_date_frame :: dataframe where
  "null_date_frame =
     \<lparr> df_columns = [''date_created'', ''points'', ''version''],
       df_rows = [[Py JNull, Py (JList [JInt 1]), Py (JInt 2)]] \<rparr>"

subsection \<open>The stager's \<^verbatim>\<open>conform_dict\<close>\<close>

definition COLUMNS :: "string list" where
  "COLUMNS =
     [''id'', ''element_id'', ''text'', ''embeddings'', ''type'', ''system'', ''layout_width'',
      ''layout_height'', ''points'', ''url'', ''version'', ''date_created'', ''date_modified'',
      ''date_processed'', ''permissions_data'', ''record_locator'', ''category_depth'',
      ''parent_id'', ''attached_filename'', ''filetype'', ''last_modified'', ''file_directory'',
      ''filename'', ''languages'', ''page_number'', ''links'', ''page_name'', ''link_urls'',
      ''link_texts'', ''sent_from'', ''sent_to'', ''subject'', ''section'',
      ''header_footer_type'', ''emphasized_text_contents'', ''emphasized_text_tags'',
      ''text_as_html'', ''regex_metadata'', ''detection_class_prob'']"

text \<open>
  Modelled from the spec: \<^verbatim>\<open>RECORD_ID_LABEL\<close> of \<^verbatim>\<open>unstructured_ingest.v2.constants\<close>,
  which is not among the sources; the specification names the record-linkage field
  \<^verbatim>\<open>record_id\<close>.
\<close>

definition RECORD_ID_LABEL :: string where
  "RECORD_ID_LABEL = ''record_id''"

text \<open>\<^verbatim>\<open>FileData\<close>: of its fields the connector reads the identifier only.\<close>

record FileData =
  fd_identifier :: string

type_synonym pydict = "(string \<times> json) list"

text \<open>
  \<^verbatim>\<open>d.pop(k, {})\<close> on a dict: the value under \<open>k\<close> (or the empty dict) and the dict
  without \<open>k\<close>.
\<close>

definition dict_pop :: "string \<Rightarrow> pydict \<Rightarrow> json \<times> pydict" where
  "dict_pop k d = (case map_of d k of None \<Rightarrow> JDict [] | Some v \<Rightarrow> v, AList.delete k d)"

text \<open>
  \<^verbatim>\<open>x.pop(k, {})\<close> on any value: a list has a \<^verbatim>\<open>pop\<close> of one argument (TypeError), the
  other values that are not dicts have none (AttributeError).
\<close>

fun value_pop :: "string \<Rightarrow> json \<Rightarrow> py_error + json \<times> pydict" where
  "value_pop k (JDict d) = Inr (dict_pop k d)"
| "value_pop k (JList xs) = Inl TypeError"
| "value_pop k v = Inl AttributeError"

text \<open>
  \<^verbatim>\<open>data.update(x)\<close>: the items of \<open>x\<close> are set in order, a key that is present
  keeping its place. For an \<open>x\<close> that is not a dict, what Python makes of it (the
  items of an iterable of pairs, or an exception) is the parameter \<open>upd\<close>.
\<close>

definition dict_update :: "pydict \<Rightarrow> pydict \<Rightarrow> pydict" where
  "dict_update d other = fold (\<lambda>(k, v). AList.update k v) other d"

fun value_update :: "(json \<Rightarrow> py_error + pydict) \<Rightarrow> pydict \<Rightarrow> json \<Rightarrow> py_error + pydict" where
  "value_update upd d (JDict other) = Inr (dict_update d other)"
| "value_update upd d v = (case upd v of Inl e \<Rightarrow> Inl e | Inr other \<Rightarrow> Inr (dict_update d other))"

text \<open>
  The first half of \<^verbatim>\<open>conform_dict\<close>: the element with its metadata, the metadata's
  data source and the metadata's coordinates merged into one flat dict.
\<close>

definition merged_data :: "(json \<Rightarrow> py_error + pydict) \<Rightarrow> pydict \<Rightarrow> py_error + pydict" where
  "merged_data upd element_dict =
     (let (metadata, data) = dict_pop ''metadata'' element_dict in
      case value_pop ''data_source'' metadata of
        Inl e \<Rightarrow> Inl e
      | Inr (data_source, metadata1) \<Rightarrow>
          (let (coordinates, metadata2) = dict_pop ''coordinates'' metadata1;
               data1 = dict_update data metadata2
           in case value_update upd data1 data_source of
                Inl e \<Rightarrow> Inl e
              | Inr data2 \<Rightarrow> value_update upd data2 coordinates))"

text \<open>
  \<^verbatim>\<open>SQLUploadStager.conform_dict\<close>. \<open>enh\<close> is \<^verbatim>\<open>get_enhanced_element_id\<close> of
  \<^verbatim>\<open>unstructured_ingest.v2.utils\<close>, a pure function that is not among the sources.
\<close>

definition conform_dict ::
  "(json \<Rightarrow> py_error + pydict) \<Rightarrow> (pydict \<Rightarrow> FileData \<Rightarrow> string) \<Rightarrow> pydict \<Rightarrow> FileData
     \<Rightarrow> py_error + pydict" where
  "conform_dict upd enh element_dict file_data =
     (case merged_data upd element_dict of
        Inl e \<Rightarrow> Inl e
      | Inr data \<Rightarrow>
          (let data' = AList.update ''id'' (JStr (enh data file_data)) data;
               element = filter (\<lambda>(k, v). k \<in> set COLUMNS) data'
           in Inr (AList.update RECORD_ID_LABEL (JStr (fd_identifier file_data)) element)))"

text \<open>For evaluation: an element as the partitioner writes it, and stand-ins for the two parameters.\<close>

definition sample_upd :: "json \<Rightarrow> py_error + pydict" where
  "sample_upd v = (if v = JList [] \<or> v = JStr [] then Inr [] else Inl TypeError)"

definition sample_enh :: "pydict \<Rightarrow> FileData \<Rightarrow> string" where
  "sample_enh data file_data =
     (case map_of data ''element_id'' of Some (JStr e) \<Rightarrow> e | _ \<Rightarrow> ''None'')
       @ fd_identifier file_data"

definition sample_element :: pydict where
  "sample_element =
     [(''element_id'', JStr ''e1''), (''text'', JStr ''hello''), (''type'', JStr ''Title''),
      (''score'', JInt 3),
      (''metadata'', JDict
         [(''filename'', JStr ''a.pdf''), (''page_number'', JInt 1), (''orig_elements'', JNull),
          (''data_source'', JDict [(''url'', JStr ''s3://b/a.pdf''), (''bucket'', JStr ''b'')]),
          (''coordinates'', JDict [(''points'', JList [JInt 0, JInt 1]), (''system'', JStr ''px'')])])]"

subsection \<open>SHA-256 (\<^verbatim>\<open>hashlib.sha256\<close>)\<close>

text \<open>
  The hash function of FIPS 180-4 over a byte string, on 32-bit words: \<open>+\<close> wraps
  modulo \<open>2\<^sup>3\<^sup>2\<close>.
\<close>

type_synonym w32 = "32 word"

definition sha_K :: "w32 list" where
  "sha_K = concat
    [[0x428a2f98, 0x71374491, 0xb5c0fbcf, 0xe9b5dba5, 0x3956c25b, 0x59f111f1, 0x923f82a4, 0xab1c5ed5],
     [0xd807aa98, 0x12835b01, 0x243185be, 0x550c7dc3, 0x72be5d74, 0x80deb1fe, 0x9bdc06a7, 0xc19bf174],
     [0xe49b69c1, 0xefbe4786, 0x0fc19dc6, 0x240ca1cc, 0x2de92c6f, 0x4a7484aa, 0x5cb0a9dc, 0x76f988da],
     [0x983e5152, 0xa831c66d, 0xb00327c8, 0xbf597fc7, 0xc6e00bf3, 0xd5a79147, 0x06ca6351, 0x14292967],
     [0x27b70a85, 0x2e1b2138, 0x4d2c6dfc, 0x53380d13, 0x650a7354, 0x766a0abb, 0x81c2c92e, 0x92722c85],
     [0xa2bfe8a1, 0xa81a664b, 0xc24b8b70, 0xc76c51a3, 0xd192e819, 0xd6990624, 0xf40e3585, 0x106aa070],
     [0x19a4c116, 0x1e376c08, 0x2748774c, 0x34b0bcb5, 0x391c0cb3, 0x4ed8aa4a, 0x5b9cca4f, 0x682e6ff3],
     [0x748f82ee, 0x78a5636f, 0x84c87814, 0x8cc70208, 0x90befffa, 0xa4506ceb, 0xbef9a3f7, 0xc67178f2]]"

type_synonym sha_state = "w32 \<times> w32 \<times> w32 \<times> w32 \<times> w32 \<times> w32 \<times> w32 \<times> w32"

definition sha_H0 :: sha_state where
  "sha_H0 = (0x6a09e667, 0xbb67ae85, 0x3c6ef372, 0xa54ff53a,
             0x510e527f, 0x9b05688c, 0x1f83d9ab, 0x5be0cd19)"

definition ssig0 :: "w32 \<Rightarrow> w32" where
  "ssig0 x = word_rotr 7 x XOR word_rotr 18 x XOR drop_bit 3 x"

definition ssig1 :: "w32 \<Rightarrow> w32" where
  "ssig1 x = word_rotr 17 x XOR word_rotr 19 x XOR drop_bit 10 x"

definition bsig0 :: "w32 \<Rightarrow> w32" where
  "bsig0 x = word_rotr 2 x XOR word_rotr 13 x XOR word_rotr 22 x"

definition bsig1 :: "w32 \<Rightarrow> w32" where
  "bsig1 x = word_rotr 6 x XOR word_rotr 11 x XOR word_rotr 25 x"

definition sha_ch :: "w32 \<Rightarrow> w32 \<Rightarrow> w32 \<Rightarrow> w32" where
  "sha_ch x y z = (x AND y) XOR (NOT x AND z)"

definition sha_maj :: "w32 \<Rightarrow> w32 \<Rightarrow> w32 \<Rightarrow> w32" where
  "sha_maj x y z = (x AND y) XOR (x AND z) XOR (y AND z)"

text \<open>
  Padding: the byte \<open>0x80\<close>, zeros up to 56 modulo 64, and the bit length of the
  message on 8 bytes, most significant first. Bytes are kept in 32-bit words.
\<close>

definition sha_length_bytes :: "nat \<Rightarrow> w32 list" where
  "sha_length_bytes n =
     map (\<lambda>i. ucast (drop_bit (8 * (7 - i)) (of_nat (8 * n) :: 64 word) AND 255)) [0..<8]"

definition sha_pad :: "w32 list \<Rightarrow> w32 list" where
  "sha_pad msg =
     msg @ [128] @ replicate ((119 - length msg mod 64) mod 64) 0
       @ sha_length_bytes (length msg)"

fun be_words :: "w32 list \<Rightarrow> w32 list" where
  "be_words (a # b # c # d # bs) =
     (push_bit 24 a OR push_bit 16 b OR push_bit 8 c OR d) # be_words bs"
| "be_words bs = []"

text \<open>The message schedule: 48 further words from the 16 of the block.\<close>

fun sha_schedule :: "nat \<Rightarrow> w32 list \<Rightarrow> w32 list" where
  "sha_schedule 0 ws = ws"
| "sha_schedule (Suc n) ws =
     sha_schedule n
       (ws @ [ssig1 (ws ! (length ws - 2)) + ws ! (length ws - 7)
              + ssig0 (ws ! (length ws - 15)) + ws ! (length ws - 16)])"

definition sha_round :: "w32 \<times> w32 \<Rightarrow> sha_state \<Rightarrow> sha_state" where
  "sha_round kw s =
     (case s of (a, b, c, d, e, f, g, h) \<Rightarrow>
        let t1 = h + bsig1 e + sha_ch e f g + fst kw + snd kw;
            t2 = bsig0 a + sha_maj a b c
        in (t1 + t2, a, b, c, d + t1, e, f, g))"

definition sha_add :: "sha_state \<Rightarrow> sha_state \<Rightarrow> sha_state" where
  "sha_add s t =
     (case s of (a, b, c, d, e, f, g, h) \<Rightarrow>
      case t of (a', b', c', d', e', f', g', h') \<Rightarrow>
        (a + a', b + b', c + c', d + d', e + e', f + f', g + g', h + h'))"

definition sha_block :: "sha_state \<Rightarrow> w32 list \<Rightarrow> sha_state" where
  "sha_block s ws = sha_add s (fold sha_round (zip sha_K (sha_schedule 48 ws)) s)"

fun sha_blocks :: "sha_state \<Rightarrow> w32 list \<Rightarrow> sha_state" where
  "sha_blocks s [] = s"
| "sha_blocks s (w # ws) = sha_blocks (sha_block s (take 16 (w # ws))) (drop 16 (w # ws))"

text \<open>The digest of a string is that of its bytes (\<^verbatim>\<open>.encode()\<close> is UTF-8).\<close>

definition sha256 :: "string \<Rightarrow> sha_state" where
  "sha256 msg = sha_blocks sha_H0 (be_words (sha_pad (map of_char msg)))"

text \<open>\<^verbatim>\<open>.hexdigest()\<close>: eight lower-case hexadecimal digits for each word.\<close>

definition hex_digit :: "w32 \<Rightarrow> char" where
  "hex_digit n = ''0123456789abcdef'' ! unat n"

definition hex32 :: "w32 \<Rightarrow> string" where
  "hex32 w = map (\<lambda>i. hex_digit (drop_bit (4 * (7 - i)) w AND 15)) [0..<8]"

definition hexdigest :: "sha_state \<Rightarrow> string" where
  "hexdigest s =
     (case s of (a, b, c, d, e, f, g, h) \<Rightarrow>
        hex32 a @ hex32 b @ hex32 c @ hex32 d @ hex32 e @ hex32 f @ hex32 g @ hex32 h)"

subsection \<open>The downloader's \<^verbatim>\<open>get_identifier\<close>\<close>

record SQLDownloaderConfig =
  dl_fields :: "string list"

text \<open>
  \<^verbatim>\<open>hashlib.sha256(",".join(fields).encode()).hexdigest()[:8]\<close>
\<close>

definition fields_hash :: "string list \<Rightarrow> string" where
  "fields_hash fs = take 8 (hexdigest (sha256 (py_join '','' fs)))"

text \<open>
  \<^verbatim>\<open>SQLDownloader.get_identifier\<close>; \<open>record_id\<close> is the text the f-string prints for
  the row's identifier. An empty field list is falsy.
\<close>

definition get_identifier :: "SQLDownloaderConfig \<Rightarrow> string \<Rightarrow> string \<Rightarrow> string" where
  "get_identifier cfg table_name record_id =
     (let f = table_name @ ''-'' @ record_id
      in if dl_fields cfg \<noteq> [] then f @ ''-'' @ fields_hash (dl_fields cfg) else f)"

subsection \<open>The destination table\<close>

text \<open>
  The uploader speaks to the store through a cursor. The store is modelled by the one
  table the uploader is configured for: its column names, its rows (one cell per
  column), and the statements executed so far, in order. Beside it the state holds what
  the uploader has logged. Acquiring a cursor is taken to succeed.
\<close>

datatype statement =
    SelectAll string
  | Delete string string string
  | InsertMany string "string list" "cell list list"

record sql_state =
  tbl_columns :: "string list"
  tbl_rows :: "cell list list"
  executed :: "statement list"
  logged :: "log_record list"

text \<open>
  \<^verbatim>\<open>DELETE FROM t WHERE key = ?\<close> with one parameter: the rows whose cell under
  \<open>key\<close> is the parameter go; the store refuses a column it does not have.
\<close>

definition linked :: "string list \<Rightarrow> string \<Rightarrow> string \<Rightarrow> cell list \<Rightarrow> bool" where
  "linked cols key r row \<longleftrightarrow> row_get cols row key = Some (Py (JStr r))"

definition execute_delete :: "string \<Rightarrow> string \<Rightarrow> string \<Rightarrow> sql_state \<Rightarrow> py_error option \<times> sql_state" where
  "execute_delete t key r st =
     (let st1 = st\<lparr>executed := executed st @ [Delete t key r]\<rparr>
      in if key \<in> set (tbl_columns st)
         then (None, st1\<lparr>tbl_rows := filter (\<lambda>row. \<not> linked (tbl_columns st) key r row)
                                              (tbl_rows st)\<rparr>)
         else (Some DatabaseError, st1))"

text \<open>
  \<^verbatim>\<open>INSERT INTO t (columns) VALUES (?, ...)\<close> executed with many parameter tuples: each
  tuple becomes a row, a column that is not named being null. The store refuses an
  empty or repeated column list, a column it does not have, and a tuple of another
  length than the column list.
\<close>

definition insertable :: "string list \<Rightarrow> string list \<Rightarrow> cell list list \<Rightarrow> bool" where
  "insertable tcols columns vals \<longleftrightarrow>
     columns \<noteq> [] \<and> distinct columns \<and> set columns \<subseteq> set tcols \<and>
     (\<forall>v \<in> set vals. length v = length columns)"

definition new_row :: "string list \<Rightarrow> string list \<Rightarrow> cell list \<Rightarrow> cell list" where
  "new_row tcols columns v =
     map (\<lambda>c. case row_get columns v c of None \<Rightarrow> Py JNull | Some x \<Rightarrow> x) tcols"

definition executemany ::
  "string \<Rightarrow> string list \<Rightarrow> cell list list \<Rightarrow> sql_state \<Rightarrow> py_error option \<times> sql_state" where
  "executemany t columns vals st =
     (let st1 = st\<lparr>executed := executed st @ [InsertMany t columns vals]\<rparr>
      in if insertable (tbl_columns st) columns vals
         then (None, st1\<lparr>tbl_rows := tbl_rows st @ map (new_row (tbl_columns st) columns) vals\<rparr>)
         else (Some DatabaseError, st1))"

subsection \<open>The uploader (\<^verbatim>\<open>SQLUploader\<close>)\<close>

record SQLUploaderConfig =
  up_batch_size :: int
  up_table_name :: string
  record_id_key :: string

text \<open>\<^verbatim>\<open>get_table_columns\<close>: one \<^verbatim>\<open>SELECT *\<close>, read for its column descriptors.\<close>

definition get_table_columns :: "SQLUploaderConfig \<Rightarrow> sql_state \<Rightarrow> string list \<times> sql_state" where
  "get_table_columns cfg st =
     (tbl_columns st, st\<lparr>executed := executed st @ [SelectAll (up_table_name cfg)]\<rparr>)"

definition can_delete :: "SQLUploaderConfig \<Rightarrow> sql_state \<Rightarrow> bool \<times> sql_state" where
  "can_delete cfg st =
     (let (cols, st1) = get_table_columns cfg st in (record_id_key cfg \<in> set cols, st1))"

definition delete_by_record_id ::
  "SQLUploaderConfig \<Rightarrow> FileData \<Rightarrow> sql_state \<Rightarrow> py_error option \<times> sql_state" where
  "delete_by_record_id cfg file_data st =
     execute_delete (up_table_name cfg) (record_id_key cfg) (fd_identifier file_data) st"

text \<open>
  \<^verbatim>\<open>prepare_data\<close>: the cells under a date column are parsed, \<^verbatim>\<open>None\<close> excepted; the
  first cell that does not parse raises (the debug records of the parser are not kept).
\<close>

definition prepare_cell :: "py_env \<Rightarrow> string \<times> cell \<Rightarrow> py_error + cell" where
  "prepare_cell env cv =
     (case cv of (column_name, v) \<Rightarrow>
        if column_name \<in> set DATE_COLUMNS
        then (if v = Py JNull then Inr (Py JNull) else date_cell env v)
        else Inr v)"

definition prepare_data :: "py_env \<Rightarrow> string list \<Rightarrow> cell list list \<Rightarrow> py_error + cell list list" where
  "prepare_data env columns data =
     sequence_err (map (\<lambda>row. sequence_err (map (prepare_cell env) (zip columns row))) data)"

text \<open>\<^verbatim>\<open>df.drop(columns=s)\<close> and \<^verbatim>\<open>df[column] = pd.Series()\<close> (a column of NaN).\<close>

definition drop_columns :: "string set \<Rightarrow> dataframe \<Rightarrow> dataframe" where
  "drop_columns s df =
     \<lparr> df_columns = filter (\<lambda>c. c \<notin> s) (df_columns df),
       df_rows = map (\<lambda>row. map snd (filter (\<lambda>(c, v). c \<notin> s) (zip (df_columns df) row)))
                     (df_rows df) \<rparr>"

definition add_nan_column :: "string \<Rightarrow> dataframe \<Rightarrow> dataframe" where
  "add_nan_column column df =
     (if column \<in> set (df_columns df)
      then df\<lparr>df_rows := map (\<lambda>row. map (\<lambda>(c, v). if c = column then Py (JFloat NaN) else v)
                                         (zip (df_columns df) row)) (df_rows df)\<rparr>
      else \<lparr> df_columns = df_columns df @ [column],
             df_rows = map (\<lambda>row. row @ [Py (JFloat NaN)]) (df_rows df) \<rparr>)"

text \<open>
  \<^verbatim>\<open>_fit_to_schema\<close>, statement by statement. Its first statement rebinds the
  parameter \<^verbatim>\<open>columns\<close> to the columns of the frame, so \<open>schema_fields\<close> is built
  from the frame as well. The function ends without a \<^verbatim>\<open>return\<close>: the result here is
  what it logs, and the frame its local variable \<^verbatim>\<open>df\<close> is bound to at the end, which
  no caller receives. \<open>iter\<close> is the order in which a set is iterated.
\<close>

definition fit_to_schema ::
  "(string set \<Rightarrow> string list) \<Rightarrow> dataframe \<Rightarrow> string list \<Rightarrow> log_record list \<times> dataframe" where
  "fit_to_schema iter df columns =
     (let columns = set (df_columns df);
          schema_fields = columns;
          columns_to_drop = columns - schema_fields;
          missing_columns = schema_fields - columns;
          log1 = (if columns_to_drop \<noteq> {} then [WarningDropColumns columns_to_drop] else []);
          log2 = (if missing_columns \<noteq> {} then [InfoAddColumns missing_columns] else []);
          df1 = drop_columns columns_to_drop df;
          df2 = fold add_nan_column (iter missing_columns) df1
      in (log1 @ log2, df2))"

text \<open>
  Modelled from the spec: \<^verbatim>\<open>split_dataframe\<close> of \<^verbatim>\<open>unstructured_ingest.utils.data_prep\<close>,
  which is not among the sources. The specification has the rows batched, in order,
  into chunks of at most \<open>batch_size\<close> rows, \<open>\<lceil>n / batch_size\<rceil>\<close> of them. It does not say
  what a size below 1 does; the model raises there.
\<close>

definition split_dataframe :: "dataframe \<Rightarrow> int \<Rightarrow> py_error + dataframe list" where
  "split_dataframe df chunk_size =
     (if chunk_size < 1 then Inl ValueError
      else let n = nat chunk_size in
        Inr (map (\<lambda>k. df\<lparr>df_rows := take n (drop (k * n) (df_rows df))\<rparr>)
                 [0..<(length (df_rows df) + n - 1) div n]))"

text \<open>\<^verbatim>\<open>df.replace({np.nan: None}, inplace=True)\<close>\<close>

definition replace_nan :: "dataframe \<Rightarrow> dataframe" where
  "replace_nan df =
     df\<lparr>df_rows := map (map (\<lambda>v. if v = Py (JFloat NaN) then Py JNull else v)) (df_rows df)\<rparr>"

text \<open>The loop of \<^verbatim>\<open>upload_dataframe\<close> over the chunks: prepare, then one \<^verbatim>\<open>executemany\<close>.\<close>

fun insert_chunks ::
  "py_env \<Rightarrow> SQLUploaderConfig \<Rightarrow> string list \<Rightarrow> dataframe list \<Rightarrow> sql_state
     \<Rightarrow> py_error option \<times> sql_state" where
  "insert_chunks env cfg columns [] st = (None, st)"
| "insert_chunks env cfg columns (rows # rest) st =
     (case prepare_data env columns (df_rows rows) of
        Inl e \<Rightarrow> (Some e, st)
      | Inr vals \<Rightarrow>
          (case executemany (up_table_name cfg) columns vals st of
             (Some e, st1) \<Rightarrow> (Some e, st1)
           | (None, st1) \<Rightarrow> insert_chunks env cfg columns rest st1))"

text \<open>
  \<^verbatim>\<open>SQLUploader.upload_dataframe\<close>. An exception leaves the state as it was when it
  was raised: nothing is rolled back. What \<^verbatim>\<open>_fit_to_schema\<close> returns is not used.
\<close>

definition upload_dataframe ::
  "py_env \<Rightarrow> (string set \<Rightarrow> string list) \<Rightarrow> SQLUploaderConfig \<Rightarrow> dataframe \<Rightarrow> FileData
     \<Rightarrow> sql_state \<Rightarrow> py_error option \<times> sql_state" where
  "upload_dataframe env iter cfg df file_data st =
     (let (cd, st1) = can_delete cfg st;
          (err, st2) =
            (if cd then delete_by_record_id cfg file_data st1
             else (None, st1\<lparr>logged := logged st1 @ [WarningSkipDelete (record_id_key cfg)]\<rparr>))
      in case err of
           Some e \<Rightarrow> (Some e, st2)
         | None \<Rightarrow>
             (let df1 = replace_nan df;
                  (table_columns, st3) = get_table_columns cfg st2;
                  st4 = st3\<lparr>logged := logged st3 @ fst (fit_to_schema iter df1 table_columns)\<rparr>;
                  columns = df_columns df1
              in case split_dataframe df1 (up_batch_size cfg) of
                   Inl e \<Rightarrow> (Some e, st4)
                 | Inr chunks \<Rightarrow> insert_chunks env cfg columns chunks st4))"

text \<open>For evaluation: the table and the batches of the scenarios of the specification.\<close>

definition sample_table :: sql_state where
  "sample_table =
     \<lparr> tbl_columns = [''id'', ''record_id'', ''text''],
       tbl_rows = [[Py (JStr ''e0''), Py (JStr ''r0''), Py (JStr ''other'')],
                   [Py (JStr ''e1''), Py (JStr ''r1''), Py (JStr ''hello'')]],
       executed = [], logged = [] \<rparr>"

definition sample_batch :: dataframe where
  "sample_batch =
     \<lparr> df_columns = [''id'', ''record_id'', ''text''],
       df_rows = [[Py (JStr ''e2''), Py (JStr ''r1''), Py (JStr ''updated'')]] \<rparr>"

definition sample_config :: SQLUploaderConfig where
  "sample_config = \<lparr> up_batch_size = 50, up_table_name = ''elements'', record_id_key = ''record_id'' \<rparr>"

text \<open>A batch with a column the table does not have, and without one the table has.\<close>

definition unfit_batch :: dataframe where
  "unfit_batch =
     \<lparr> df_columns = [''id'', ''record_id'', ''extra''],
       df_rows = [[Py (JStr ''e3''), Py (JStr ''r1''), Py (JStr ''x'')]] \<rparr>"

section \<open>Properties\<close>

subsection \<open>Slices and chunks\<close>

lemma slice_bound_nat: "slice_bound (int i) n = min i n"
  by (simp add: slice_bound_def)

lemma py_slice_nat: "py_slice xs (int i) (int (i + b)) = take b (drop i xs)"
proof (cases "i < length xs")
  case True
  then show ?thesis
    unfolding py_slice_def slice_bound_nat Let_def by (auto simp: min_def)
next
  case False
  then show ?thesis
    unfolding py_slice_def slice_bound_nat Let_def by simp
qed

lemma py_slice_chunk:
  "py_slice xs (int k * int b) ((int k + 1) * int b) = take b (drop (k * b) xs)"
proof -
  have "int k * int b = int (k * b)" by simp
  moreover have "(int k + 1) * int b = int (k * b + b)" by (simp add: algebra_simps)
  ultimately show ?thesis using py_slice_nat [of xs "k * b" b] by simp
qed

lemma concat_chunks:
  "concat (map (\<lambda>k. take b (drop (k * b) xs)) [0..<m]) = take (m * b) xs"
proof (induction m)
  case 0
  then show ?case by simp
next
  case (Suc m)
  have "take (m * b + b) xs = take (m * b) xs @ take b (drop (m * b) xs)"
    by (simp add: take_add)
  with Suc show ?case by (simp add: add.commute)
qed

lemma ceil_div_nat:
  assumes "0 < b"
  shows "\<lceil>real n / real b\<rceil> = int ((n + b - 1) div b)"
proof -
  define q where "q = (n + b - 1) div b"
  have le: "q * b \<le> n + b - 1" unfolding q_def by simp
  have "n + b - 1 < q * b + b"
    unfolding q_def using assms
    by (metis add.commute dividend_less_div_times)
  then have lo: "q * b < n + b" "n \<le> q * b" using assms le by auto
  have "real n \<le> real q * real b" using lo(2) by (metis of_nat_le_iff of_nat_mult)
  then have up: "real n / real b \<le> real q"
    using assms by (simp add: field_simps)
  have "real (q * b) < real (n + b)" using lo(1) by (simp only: of_nat_less_iff)
  then have "real q * real b - real b < real n" by simp
  then have "(real q - 1) * real b < real n" by (simp add: algebra_simps)
  then have dn: "real q - 1 < real n / real b"
    using assms by (simp add: field_simps)
  have "\<lceil>real n / real b\<rceil> = int q"
    by (rule ceiling_unique) (use up dn in simp_all)
  then show ?thesis by (simp add: q_def)
qed

lemma id_batches_pos:
  assumes "0 < b"
  shows "id_batches (int b) ids =
    Inr (map (\<lambda>k. set (take b (drop (k * b) ids))) [0..<(length ids + b - 1) div b])"
proof -
  have "int (length ids) + int b - 1 = int (length ids + b - 1)"
    using assms by linarith
  then have "(int (length ids) + int b - 1) div int b = int ((length ids + b - 1) div b)"
    by (simp only: zdiv_int)
  then show ?thesis
    using assms by (simp add: id_batches_def py_range_def py_slice_chunk comp_def)
qed

lemma ceil_chunks_bound:
  assumes "0 < b"
  shows "(n::nat) \<le> ((n + b - 1) div b) * b"
proof -
  have "n + b - 1 < b + ((n + b - 1) div b) * b"
    using assms by (rule dividend_less_div_times)
  then show ?thesis using assms by linarith
qed

lemma chunks_cover:
  assumes "0 < b"
  shows "(\<Union>k<(length xs + b - 1) div b. set (take b (drop (k * b) xs))) = set xs"
proof -
  let ?m = "(length xs + b - 1) div b"
  have "length xs \<le> ?m * b"
    using assms by (rule ceil_chunks_bound)
  then have "take (?m * b) xs = xs" by simp
  then have "set (concat (map (\<lambda>k. take b (drop (k * b) xs)) [0..<?m])) = set xs"
    by (simp only: concat_chunks)
  then have "(\<Union>k\<in>{0..<?m}. set (take b (drop (k * b) xs))) = set xs"
    by simp
  then show ?thesis by (simp only: atLeast0LessThan)
qed

lemma chunks_disjoint:
  assumes "distinct xs" "i < j"
  shows "set (take b (drop (i * b) xs)) \<inter> set (take b (drop (j * b) xs)) = {}"
proof -
  have "Suc i * b \<le> j * b"
    using assms(2) by (intro mult_le_mono1) simp
  then have le: "i * b + b \<le> j * b" by (simp add: add.commute)
  have "take (i * b + b) xs = take (i * b) xs @ take b (drop (i * b) xs)"
    by (simp add: take_add)
  then have "set (take b (drop (i * b) xs)) \<subseteq> set (take (i * b + b) xs)" by simp
  also have "\<dots> \<subseteq> set (take (j * b) xs)"
    using le by (rule set_take_subset_set_take)
  finally have l: "set (take b (drop (i * b) xs)) \<subseteq> set (take (j * b) xs)" .
  have r: "set (take b (drop (j * b) xs)) \<subseteq> set (drop (j * b) xs)"
    by (rule set_take_subset)
  have "distinct (take (j * b) xs @ drop (j * b) xs)" using assms(1) by simp
  then have "set (take (j * b) xs) \<inter> set (drop (j * b) xs) = {}"
    by (simp only: distinct_append)
  with l r show ?thesis by blast
qed

subsection \<open>The indexer\<close>

lemma run_indexer_pos:
  assumes "0 < b" "ix_batch_size cfg = int b"
  shows "run_indexer iter now ctype cfg results =
    Inr (map (\<lambda>k. \<lparr> connector_type = ctype, date_processed = now k,
                     bf_table_name = ix_table_name cfg, bf_id_column = ix_id_column cfg,
                     batch_items = iter (set (take b (drop (k * b) (sort results)))) \<rparr>)
             [0..<(length results + b - 1) div b])"
  using assms
  by (simp add: run_indexer_def get_doc_ids_def id_batches_pos enumerate_eq_zip
      map_zip_map2 zip_same_conv_map comp_def)

text \<open>
  C2. For a table whose identifier column holds \<open>N\<close> distinct strings and a batch size
  \<open>B \<ge> 1\<close>, the indexer's run yields exactly \<open>\<lceil>N / B\<rceil>\<close> descriptors; the
  \<open>k\<close>-th frozenset is the \<open>k\<close>-th contiguous slice of length \<open>B\<close> of the sorted
  identifier list and is what the \<open>k\<close>-th descriptor's batch items hold; the frozensets
  are pairwise disjoint and their union is the set of all identifiers. The iteration
  order of a frozenset is any order that lists its members.
\<close>

theorem partitioner_batches:
  assumes B: "1 \<le> ix_batch_size cfg"
    and D: "distinct results"
    and I: "\<And>S. finite S \<Longrightarrow> set (iter S) = S"
  shows "\<exists>bs ds.
     id_batches (ix_batch_size cfg) (get_doc_ids results) = Inr bs \<and>
     run_indexer iter now ctype cfg results = Inr ds \<and>
     int (length ds) = \<lceil>real (length results) / real_of_int (ix_batch_size cfg)\<rceil> \<and>
     length bs = length ds \<and>
     (\<forall>k<length ds.
        bs ! k = set (take (nat (ix_batch_size cfg))
                       (drop (k * nat (ix_batch_size cfg)) (sort results))) \<and>
        set (batch_items (ds ! k)) = bs ! k) \<and>
     (\<forall>i<length ds. \<forall>j<length ds. i \<noteq> j \<longrightarrow> bs ! i \<inter> bs ! j = {}) \<and>
     \<Union> (set bs) = set results"
proof -
  define b where "b = nat (ix_batch_size cfg)"
  have b: "0 < b" "ix_batch_size cfg = int b" using B by (simp_all add: b_def)
  let ?ids = "sort results"
  let ?m = "(length results + b - 1) div b"
  let ?chunk = "\<lambda>k. set (take b (drop (k * b) ?ids))"
  let ?bs = "map ?chunk [0..<?m]"
  let ?ds = "map (\<lambda>k. \<lparr> connector_type = ctype, date_processed = now k,
                     bf_table_name = ix_table_name cfg, bf_id_column = ix_id_column cfg,
                     batch_items = iter (?chunk k) \<rparr>) [0..<?m]"
  have 1: "id_batches (ix_batch_size cfg) (get_doc_ids results) = Inr ?bs"
    using id_batches_pos [OF b(1), of ?ids] by (simp add: b(2) get_doc_ids_def)
  have 2: "run_indexer iter now ctype cfg results = Inr ?ds"
    using b by (rule run_indexer_pos)
  have 3: "int (length ?ds) = \<lceil>real (length results) / real_of_int (ix_batch_size cfg)\<rceil>"
    using ceil_div_nat [OF b(1), of "length results"] by (simp add: b(2))
  have 4: "length ?bs = length ?ds" by simp
  have 5: "\<forall>k<length ?ds.
        ?bs ! k = set (take (nat (ix_batch_size cfg))
                       (drop (k * nat (ix_batch_size cfg)) (sort results))) \<and>
        set (batch_items (?ds ! k)) = ?bs ! k"
    using I by (simp add: b(2))
  have dist: "distinct ?ids" using D by simp
  have 6: "\<forall>i<length ?ds. \<forall>j<length ?ds. i \<noteq> j \<longrightarrow> ?bs ! i \<inter> ?bs ! j = {}"
  proof (intro allI impI)
    fix i j assume ij: "i < length ?ds" "j < length ?ds" "i \<noteq> j"
    have "?chunk i \<inter> ?chunk j = {}"
    proof (cases "i < j")
      case True
      then show ?thesis using chunks_disjoint [OF dist] by blast
    next
      case False
      then have "j < i" using ij(3) by simp
      then have "?chunk j \<inter> ?chunk i = {}" using chunks_disjoint [OF dist] by blast
      then show ?thesis by blast
    qed
    then show "?bs ! i \<inter> ?bs ! j = {}" using ij by simp
  qed
  have "\<Union> (set ?bs) = (\<Union>k<?m. ?chunk k)" by (auto simp: lessThan_def)
  also have "\<dots> = set ?ids" using chunks_cover [OF b(1), of ?ids] by simp
  finally have 7: "\<Union> (set ?bs) = set results" by simp
  show ?thesis
    using 1 2 3 4 5 6 7 by blast
qed

text \<open>
  The scenario of the specification: identifiers \<open>b, a, c\<close> with batch size 2.
\<close>

lemma scenario_bac:
  "run_indexer sorted_list_of_set (\<lambda>k. ''t'') ''sql''
     \<lparr>ix_table_name = ''T'', ix_id_column = ''id'', ix_batch_size = 2\<rparr> [''b'', ''a'', ''c'']
   = Inr [\<lparr>connector_type = ''sql'', date_processed = ''t'', bf_table_name = ''T'',
            bf_id_column = ''id'', batch_items = [''a'', ''b'']\<rparr>,
          \<lparr>connector_type = ''sql'', date_processed = ''t'', bf_table_name = ''T'',
            bf_id_column = ''id'', batch_items = [''c'']\<rparr>]"
  by code_simp

theorem partitioner_batches_witness:
  "(1::int) \<le> ix_batch_size \<lparr>ix_table_name = ''T'', ix_id_column = ''id'', ix_batch_size = 2\<rparr> \<and>
   distinct [''b'', ''a'', ''c''] \<and>
   (\<exists>bs ds.
     id_batches 2 (get_doc_ids [''b'', ''a'', ''c'']) = Inr bs \<and>
     run_indexer sorted_list_of_set (\<lambda>k. ''t'') ''sql''
       \<lparr>ix_table_name = ''T'', ix_id_column = ''id'', ix_batch_size = 2\<rparr> [''b'', ''a'', ''c''] = Inr ds \<and>
     int (length ds) = \<lceil>real (length [''b'', ''a'', ''c'']) / 2\<rceil> \<and>
     length bs = length ds \<and>
     (\<forall>i<length ds. \<forall>j<length ds. i \<noteq> j \<longrightarrow> bs ! i \<inter> bs ! j = {}) \<and>
     \<Union> (set bs) = {''a'', ''b'', ''c''})"
proof -
  let ?cfg = "\<lparr>ix_table_name = ''T'', ix_id_column = ''id'', ix_batch_size = 2\<rparr>"
  have h1: "1 \<le> ix_batch_size ?cfg" by simp
  have h2: "distinct [''b'', ''a'', ''c'']" by simp
  have h3: "\<And>S :: string set. finite S \<Longrightarrow> set (sorted_list_of_set S) = S" by simp
  from partitioner_batches [OF h1 h2 h3, of "\<lambda>k. ''t''" "''sql''"]
  obtain bs ds where
    "id_batches (ix_batch_size ?cfg) (get_doc_ids [''b'', ''a'', ''c'']) = Inr bs"
    "run_indexer sorted_list_of_set (\<lambda>k. ''t'') ''sql'' ?cfg [''b'', ''a'', ''c''] = Inr ds"
    "int (length ds) = \<lceil>real (length [''b'', ''a'', ''c'']) / real_of_int (ix_batch_size ?cfg)\<rceil>"
    "length bs = length ds"
    "\<forall>i<length ds. \<forall>j<length ds. i \<noteq> j \<longrightarrow> bs ! i \<inter> bs ! j = {}"
    "\<Union> (set bs) = set [''b'', ''a'', ''c'']"
    by blast
  then show ?thesis using h1 h2 by (intro conjI exI [of _ bs] exI [of _ ds]) auto
qed

lemma sort_mset_cong:
  fixes xs ys :: "'a::linorder list"
  assumes "mset xs = mset ys"
  shows "sort xs = sort ys"
  by (rule properties_for_sort) (simp_all add: assms)

lemma id_batches_finite:
  assumes "id_batches B ids = Inr bs" "S \<in> set bs"
  shows "finite S"
  using assms by (auto simp: id_batches_def split: if_splits)

lemma map_snd_enumerate: "map (\<lambda>p. f (snd p)) (enumerate n xs) = map f xs"
  by (induction xs arbitrary: n) simp_all

lemma run_indexer_items:
  "map_sum id (map batch_items) (run_indexer iter now ctype cfg rs) =
   map_sum id (map iter) (id_batches (ix_batch_size cfg) (sort rs))"
  by (cases "id_batches (ix_batch_size cfg) (sort rs)")
     (simp_all add: run_indexer_def get_doc_ids_def comp_def case_prod_unfold
        map_snd_enumerate)

text \<open>
  C6. Two enumerations of an unchanged table produce the same batch assignment: the
  same number of descriptors, in the same order, with the same batch items. This holds
  whatever the clock reads, and even when the store returns the identifiers in another
  order (the same multiset of query results); a fortiori for the same sequence. Within
  one interpreter (one iteration order) the batch item lists are equal; across
  iteration orders the identifier sets are.
\<close>

theorem partitioner_deterministic:
  assumes "mset rs1 = mset rs2"
  shows "map_sum id (map batch_items) (run_indexer iter now1 ctype cfg rs1) =
         map_sum id (map batch_items) (run_indexer iter now2 ctype cfg rs2) \<and>
        ((\<forall>S. finite S \<longrightarrow> set (it1 S) = S \<and> set (it2 S) = S) \<longrightarrow>
           map_sum id (map (set \<circ> batch_items)) (run_indexer it1 now1 ctype cfg rs1) =
           map_sum id (map (set \<circ> batch_items)) (run_indexer it2 now2 ctype cfg rs2))"
proof (intro conjI impI)
  have s: "sort rs1 = sort rs2" using assms by (rule sort_mset_cong)
  show "map_sum id (map batch_items) (run_indexer iter now1 ctype cfg rs1) =
         map_sum id (map batch_items) (run_indexer iter now2 ctype cfg rs2)"
    by (simp only: run_indexer_items s)
  assume it: "\<forall>S. finite S \<longrightarrow> set (it1 S) = S \<and> set (it2 S) = S"
  have *: "map_sum id (map (set \<circ> batch_items)) (run_indexer i n ctype cfg rs) =
           map_sum id (map (set \<circ> i)) (id_batches (ix_batch_size cfg) (sort rs))" for i n rs
  proof -
    have "map_sum id (map (set \<circ> batch_items)) (run_indexer i n ctype cfg rs) =
          map_sum id (map set) (map_sum id (map batch_items) (run_indexer i n ctype cfg rs))"
      by (cases "run_indexer i n ctype cfg rs") simp_all
    also have "\<dots> = map_sum id (map set) (map_sum id (map i) (id_batches (ix_batch_size cfg) (sort rs)))"
      by (simp only: run_indexer_items)
    also have "\<dots> = map_sum id (map (set \<circ> i)) (id_batches (ix_batch_size cfg) (sort rs))"
      by (cases "id_batches (ix_batch_size cfg) (sort rs)") simp_all
    finally show ?thesis .
  qed
  have "map_sum id (map (set \<circ> i)) (id_batches B ids) = id_batches B ids"
    if "\<forall>S. finite S \<longrightarrow> set (i S) = S" for i B ids
  proof (cases "id_batches B ids")
    case (Inl e)
    then show ?thesis by simp
  next
    case (Inr bs)
    then have "\<forall>S\<in>set bs. finite S" using id_batches_finite by blast
    then have "map (set \<circ> i) bs = bs" using that by (simp add: map_idI)
    then show ?thesis using Inr by simp
  qed
  then show "map_sum id (map (set \<circ> batch_items)) (run_indexer it1 now1 ctype cfg rs1) =
           map_sum id (map (set \<circ> batch_items)) (run_indexer it2 now2 ctype cfg rs2)"
    using it by (simp add: * s)
qed

theorem partitioner_deterministic_witness:
  "mset [''b'', ''a'', ''c''] = mset [''c'', ''b'', ''a''] \<and>
   map_sum id (map batch_items) (run_indexer sorted_list_of_set (\<lambda>k. ''t1'') ''sql''
       \<lparr>ix_table_name = ''T'', ix_id_column = ''id'', ix_batch_size = 2\<rparr> [''b'', ''a'', ''c'']) =
   map_sum id (map batch_items) (run_indexer sorted_list_of_set (\<lambda>k. ''t2'') ''sql''
       \<lparr>ix_table_name = ''T'', ix_id_column = ''id'', ix_batch_size = 2\<rparr> [''c'', ''b'', ''a'']) \<and>
   map_sum id (map (set \<circ> batch_items)) (run_indexer sorted_list_of_set (\<lambda>k. ''t1'') ''sql''
       \<lparr>ix_table_name = ''T'', ix_id_column = ''id'', ix_batch_size = 2\<rparr> [''b'', ''a'', ''c'']) =
   map_sum id (map (set \<circ> batch_items)) (run_indexer (rev \<circ> sorted_list_of_set) (\<lambda>k. ''t2'') ''sql''
       \<lparr>ix_table_name = ''T'', ix_id_column = ''id'', ix_batch_size = 2\<rparr> [''c'', ''b'', ''a''])"
proof -
  have h: "mset [''b'', ''a'', ''c''] = mset [''c'', ''b'', ''a'']" by simp
  have i: "\<forall>S :: string set. finite S \<longrightarrow>
      set (sorted_list_of_set S) = S \<and> set ((rev \<circ> sorted_list_of_set) S) = S"
    by simp
  from partitioner_deterministic [OF h, of sorted_list_of_set "\<lambda>k. ''t1''" "''sql''"
      "\<lparr>ix_table_name = ''T'', ix_id_column = ''id'', ix_batch_size = 2\<rparr>" "\<lambda>k. ''t2''"
      sorted_list_of_set "rev \<circ> sorted_list_of_set"] h i
  show ?thesis by blast
qed

subsection \<open>The date normalizer\<close>

lemma float_max_int_big: "2 ^ 64 < float_max_int"
proof -
  define a :: int where "a = 2 ^ 970"
  have e: "(1024::nat) = 970 + 54" by simp
  have p: "(2::int) ^ 1024 = 2 ^ 970 * 2 ^ 54"
    by (subst e) (rule power_add)
  have fm: "float_max_int = a * 2 ^ 54 - a"
    unfolding float_max_int_def a_def by (simp only: p)
  have "(2::int) ^ 64 \<le> 2 ^ 970" by (rule power_increasing) simp_all
  then have a: "2 ^ 64 \<le> a" by (simp only: a_def)
  then have "0 < a" by simp
  then have "a * 2 \<le> a * (2 ^ 54 - 1)" by (intro mult_left_mono) simp_all
  then have "a < a * 2 ^ 54 - a" using \<open>0 < a\<close> by (simp add: algebra_simps)
  with a show ?thesis by (simp only: fm)
qed

lemma lt_float_max_int: "i \<le> 2 ^ 64 \<Longrightarrow> i < float_max_int"
  using float_max_int_big by simp

lemmas eval_date =
  parse_date_string_def epoch_path_def lt_float_max_int sample_env_def
  round_half_even_def datetime_min_def datetime_max_def float_of_digits_def

text \<open>
  C8. \<^verbatim>\<open>parse_date_string\<close> raises exactly when both paths fail, and then with the
  exception of the string path: when the numeric-epoch path fails, one debug record is
  logged and the result (a datetime or an exception) is that of
  \<^verbatim>\<open>dateutil.parser.parse\<close> on the same value; when the numeric path succeeds nothing
  is logged and its datetime is returned.
\<close>

theorem parse_date_string_raises:
  "(\<forall>e. snd (parse_date_string env v) = Inl e \<longleftrightarrow>
          (\<exists>e1. epoch_path env v = Inl e1) \<and> parser_parse env v = Inl e) \<and>
   (\<forall>e1. epoch_path env v = Inl e1 \<longrightarrow>
          parse_date_string env v = ([DebugNotATimestamp v e1], parser_parse env v)) \<and>
   (\<forall>d. epoch_path env v = Inr d \<longrightarrow> parse_date_string env v = ([], Inr d))"
  by (cases "epoch_path env v") (simp_all add: parse_date_string_def)

theorem parse_date_string_raises_witness:
  "epoch_path sample_env (Py (JStr ''yesterday'')) = Inl ValueError \<and>
   parse_date_string sample_env (Py (JStr ''yesterday'')) =
     ([DebugNotATimestamp (Py (JStr ''yesterday'')) ValueError], Inl ParserError) \<and>
   epoch_path sample_env (Py (JStr ''1970-01-02'')) = Inl ValueError \<and>
   parse_date_string sample_env (Py (JStr ''1970-01-02'')) =
     ([DebugNotATimestamp (Py (JStr ''1970-01-02'')) ValueError], Inr (Datetime 86400000000)) \<and>
   epoch_path sample_env (Py (JInt 86400000)) = Inr (Datetime 86400000000) \<and>
   parse_date_string sample_env (Py (JInt 86400000)) = ([], Inr (Datetime 86400000000))"
proof -
  have a: "epoch_path sample_env (Py (JStr ''yesterday'')) = Inl ValueError"
    by (simp add: eval_date)
  have b: "epoch_path sample_env (Py (JStr ''1970-01-02'')) = Inl ValueError"
    by (simp add: eval_date)
  have c: "epoch_path sample_env (Py (JInt 86400000)) = Inr (Datetime 86400000000)"
    by (simp add: eval_date)
  have p1: "parser_parse sample_env (Py (JStr ''yesterday'')) = Inl ParserError"
    by (simp add: sample_env_def)
  have p2: "parser_parse sample_env (Py (JStr ''1970-01-02'')) = Inr (Datetime 86400000000)"
    by (simp add: sample_env_def)
  show ?thesis
    using parse_date_string_raises [of sample_env "Py (JStr ''yesterday'')"]
      parse_date_string_raises [of sample_env "Py (JStr ''1970-01-02'')"]
      parse_date_string_raises [of sample_env "Py (JInt 86400000)"]
      a b c p1 p2
    by simp
qed

text \<open>
  A value that is not a string has no string path: it raises whenever its numeric path
  fails.
\<close>

lemma parse_date_string_not_str:
  assumes "\<And>s. v \<noteq> Py (JStr s)" "epoch_path env v = Inl e1"
  shows "snd (parse_date_string env v) = Inl TypeError"
proof -
  have "parser_parse env v = Inl TypeError"
    using assms(1) by (cases "(env, v)" rule: parser_parse.cases) auto
  then show ?thesis using assms(2) by (simp add: parse_date_string_def)
qed

text \<open>
  C4, as the code has it. The unit is chosen by the type of the value, not by its size:
  an \<^verbatim>\<open>int\<close> is divided by 1000 (epoch milliseconds), a float or a numeric string is
  taken as it is (epoch seconds). So the seconds value 1700000000 given as a float or
  as a string, and the milliseconds value 1700000000000 given as an \<^verbatim>\<open>int\<close>, are
  the same datetime, in every zone whose offset is within a day.
\<close>

theorem epoch_units:
  assumes tz: "\<forall>t. \<bar>utc_offset env t\<bar> \<le> 86400"
  shows
   "(\<forall>i. \<bar>i\<bar> < float_max_int \<longrightarrow>
          epoch_path env (Py (JInt i)) = fromtimestamp env (Fin (of_int i / 1000))) \<and>
    (\<forall>f. epoch_path env (Py (JFloat f)) = fromtimestamp env f) \<and>
    (\<forall>s f. str_to_float env s = Some f \<longrightarrow>
          epoch_path env (Py (JStr s)) = fromtimestamp env f) \<and>
    (\<exists>d. parse_date_string env (Py (JInt 1700000000000)) = ([], Inr d) \<and>
         parse_date_string env (Py (JFloat (Fin 1700000000))) = ([], Inr d) \<and>
         (\<forall>s. str_to_float env s = Some (Fin 1700000000) \<longrightarrow>
              parse_date_string env (Py (JStr s)) = ([], Inr d)))"
proof -
  let ?off = "utc_offset env 1700000000"
  let ?d = "Datetime (1700000000000000 + ?off * 1000000)"
  have off: "- 86400 \<le> ?off" "?off \<le> 86400"
    using tz [rule_format, of 1700000000] by simp_all
  have ft: "fromtimestamp env (Fin 1700000000) = Inr ?d"
    using off by (simp add: round_half_even_def datetime_min_def datetime_max_def)
  have 1: "epoch_path env (Py (JInt 1700000000000)) = Inr ?d"
    using ft by (simp add: epoch_path_def lt_float_max_int)
  have 2: "epoch_path env (Py (JFloat (Fin 1700000000))) = Inr ?d"
    using ft by (simp add: epoch_path_def)
  have 3: "epoch_path env (Py (JStr s)) = Inr ?d"
    if "str_to_float env s = Some (Fin 1700000000)" for s
    using ft that by (simp add: epoch_path_def)
  show ?thesis
    using 1 2 3 by (auto simp: parse_date_string_def epoch_path_def)
qed

theorem epoch_units_witness:
  "(\<forall>t. \<bar>utc_offset sample_env t\<bar> \<le> 86400) \<and>
   str_to_float sample_env ''1700000000'' = Some (Fin 1700000000) \<and>
   parse_date_string sample_env (Py (JInt 1700000000000)) =
     ([], Inr (Datetime 1700000000000000)) \<and>
   parse_date_string sample_env (Py (JFloat (Fin 1700000000))) =
     ([], Inr (Datetime 1700000000000000)) \<and>
   parse_date_string sample_env (Py (JStr ''1700000000'')) =
     ([], Inr (Datetime 1700000000000000))"
proof -
  have tz: "\<forall>t. \<bar>utc_offset sample_env t\<bar> \<le> 86400" by (simp add: sample_env_def)
  have s: "str_to_float sample_env ''1700000000'' = Some (Fin 1700000000)"
    by (simp add: sample_env_def float_of_digits_def)
  have i: "parse_date_string sample_env (Py (JInt 1700000000000)) =
     ([], Inr (Datetime 1700000000000000))"
    by (simp add: eval_date)
  from epoch_units [OF tz] obtain d where
    d: "parse_date_string sample_env (Py (JInt 1700000000000)) = ([], Inr d)"
       "parse_date_string sample_env (Py (JFloat (Fin 1700000000))) = ([], Inr d)"
       "\<forall>s. str_to_float sample_env s = Some (Fin 1700000000) \<longrightarrow>
            parse_date_string sample_env (Py (JStr s)) = ([], Inr d)"
    by blast
  from d(1) i have "d = Datetime 1700000000000000" by simp
  with d s tz show ?thesis by simp
qed

text \<open>
  The claim as the specification words it fails where both values are integers: the
  \<^verbatim>\<open>int\<close> 1700000000 is divided by 1000 as well, which is 20 January 1970 (day 19),
  while the \<^verbatim>\<open>int\<close> 1700000000000 is 14 November 2023 (day 19675).
\<close>

theorem epoch_int_seconds_counterexample:
  "snd (parse_date_string sample_env (Py (JInt 1700000000))) = Inr (Datetime 1700000000000) \<and>
   snd (parse_date_string sample_env (Py (JInt 1700000000000))) =
     Inr (Datetime 1700000000000000) \<and>
   date_of (Datetime 1700000000000) = 19 \<and>
   date_of (Datetime 1700000000000000) = 19675"
  by (simp add: eval_date)

text \<open>No zone brings the two integers to one date.\<close>

lemma epoch_int_seconds_differ:
  assumes tz: "\<forall>t. \<bar>utc_offset env t\<bar> \<le> 86400"
    and a: "snd (parse_date_string env (Py (JInt 1700000000))) = Inr d1"
    and b: "snd (parse_date_string env (Py (JInt 1700000000000))) = Inr d2"
  shows "date_of d1 < date_of d2"
proof -
  let ?o1 = "utc_offset env 1700000" and ?o2 = "utc_offset env 1700000000"
  have o: "- 86400 \<le> ?o1" "?o1 \<le> 86400" "- 86400 \<le> ?o2" "?o2 \<le> 86400"
    using tz [rule_format, of 1700000] tz [rule_format, of 1700000000] by simp_all
  have "d1 = Datetime (1700000000000 + ?o1 * 1000000)"
    using a o by (simp add: eval_date)
  moreover have "d2 = Datetime (1700000000000000 + ?o2 * 1000000)"
    using b o by (simp add: eval_date)
  ultimately show ?thesis using o by simp
qed

subsection \<open>Column transforms\<close>

lemma row_get_absent: "c \<notin> set cols \<Longrightarrow> row_get cols row c = None"
  unfolding row_get_def map_of_eq_None_iff
  by (auto dest: set_zip_leftD)

lemma row_apply_other:
  assumes "sequence_err (map (\<lambda>(c, v). if c = column then f v else Inr v) (zip cols row)) = Inr row'"
    and "c \<noteq> column"
  shows "row_get cols row' c = row_get cols row c"
  using assms
proof (induction cols arbitrary: row row')
  case Nil
  then show ?case by (simp add: row_get_def)
next
  case (Cons a cols)
  show ?case
  proof (cases row)
    case Nil
    with Cons.prems show ?thesis by (simp add: row_get_def)
  next
    case (Cons v vs)
    with Cons.prems Cons.IH [of vs] show ?thesis
      by (auto simp: row_get_def split: sum.splits if_splits)
  qed
qed

lemma row_apply_same:
  assumes "sequence_err (map (\<lambda>(c, v). if c = column then Inr (g v) else Inr v) (zip cols row)) = Inr row'"
  shows "row_get cols row' column = map_option g (row_get cols row column)"
  using assms
proof (induction cols arbitrary: row row')
  case Nil
  then show ?case by (simp add: row_get_def)
next
  case (Cons a cols)
  show ?case
  proof (cases row)
    case Nil
    with Cons.prems show ?thesis by (simp add: row_get_def)
  next
    case (Cons v vs)
    with Cons.prems Cons.IH [of vs] show ?thesis
      by (auto simp: row_get_def split: sum.splits if_splits)
  qed
qed

lemma sequence_err_map_Inr:
  "sequence_err (map h xs) = Inr ys \<Longrightarrow> length ys = length xs \<and> (\<forall>i<length xs. h (xs ! i) = Inr (ys ! i))"
proof (induction xs arbitrary: ys)
  case Nil
  then show ?case by simp
next
  case (Cons x xs)
  then show ?case
    by (auto split: sum.splits simp: nth_Cons split: nat.splits)
qed

lemma sequence_err_total:
  "(\<And>x. x \<in> set xs \<Longrightarrow> \<exists>y. h x = Inr y) \<Longrightarrow> \<exists>ys. sequence_err (map h xs) = Inr ys"
proof (induction xs)
  case Nil
  then show ?case by simp
next
  case (Cons x xs)
  then obtain y ys where "h x = Inr y" "sequence_err (map h xs) = Inr ys"
    by (metis list.set_intros(1,2))
  then show ?case by simp
qed

lemma apply_column_Inr:
  assumes "apply_column f column df = Inr df'"
  obtains rows where
    "sequence_err (map (\<lambda>row. sequence_err
        (map (\<lambda>(c, v). if c = column then f v else Inr v) (zip (df_columns df) row)))
        (df_rows df)) = Inr rows"
    "df' = df\<lparr>df_rows := rows\<rparr>"
proof -
  let ?s = "sequence_err (map (\<lambda>row. sequence_err
        (map (\<lambda>(c, v). if c = column then f v else Inr v) (zip (df_columns df) row)))
        (df_rows df))"
  show thesis
  proof (cases ?s)
    case (Inl e)
    then have "apply_column f column df = Inl e"
      by (simp only: apply_column_def sum.case)
    with assms show ?thesis by simp
  next
    case (Inr rows)
    then have "apply_column f column df = Inr (df\<lparr>df_rows := rows\<rparr>)"
      by (simp only: apply_column_def sum.case)
    with assms have "df' = df\<lparr>df_rows := rows\<rparr>" by simp
    with Inr show ?thesis by (rule that)
  qed
qed

lemma apply_column_shape:
  assumes "apply_column f column df = Inr df'"
  shows "df_columns df' = df_columns df" "length (df_rows df') = length (df_rows df)"
proof -
  from assms obtain rows where
    r: "sequence_err (map (\<lambda>row. sequence_err
        (map (\<lambda>(c, v). if c = column then f v else Inr v) (zip (df_columns df) row)))
        (df_rows df)) = Inr rows"
    and d: "df' = df\<lparr>df_rows := rows\<rparr>"
    by (rule apply_column_Inr)
  show "df_columns df' = df_columns df" by (simp add: d)
  show "length (df_rows df') = length (df_rows df)"
    using sequence_err_map_Inr [OF r] by (simp add: d)
qed

lemma apply_column_other:
  assumes "apply_column f column df = Inr df'" "c \<noteq> column"
  shows "df_column df' c = df_column df c"
proof -
  let ?h = "\<lambda>row. sequence_err (map (\<lambda>(c, v). if c = column then f v else Inr v)
                                   (zip (df_columns df) row))"
  obtain rows where r: "sequence_err (map ?h (df_rows df)) = Inr rows"
    and d: "df' = df\<lparr>df_rows := rows\<rparr>"
    using assms(1) by (rule apply_column_Inr)
  from sequence_err_map_Inr [OF r]
  have l: "length rows = length (df_rows df)"
    and h: "\<And>i. i < length (df_rows df) \<Longrightarrow> ?h (df_rows df ! i) = Inr (rows ! i)"
    by auto
  show ?thesis
    unfolding df_column_def d
    by (rule nth_equalityI) (simp_all add: l row_apply_other [OF h assms(2)])
qed

lemma apply_column_same:
  assumes "apply_column (\<lambda>x. Inr (g x)) column df = Inr df'"
  shows "df_column df' column = map (map_option g) (df_column df column)"
proof -
  let ?h = "\<lambda>row. sequence_err (map (\<lambda>(c, v). if c = column then (Inr (g v) :: py_error + cell) else Inr v)
                                   (zip (df_columns df) row))"
  obtain rows where r: "sequence_err (map ?h (df_rows df)) = Inr rows"
    and d: "df' = df\<lparr>df_rows := rows\<rparr>"
    using assms(1) by (rule apply_column_Inr)
  from sequence_err_map_Inr [OF r]
  have l: "length rows = length (df_rows df)"
    and h: "\<And>i. i < length (df_rows df) \<Longrightarrow> ?h (df_rows df ! i) = Inr (rows ! i)"
    by auto
  show ?thesis
    unfolding df_column_def d
    by (rule nth_equalityI) (simp_all add: l row_apply_same [OF h])
qed

lemma apply_column_total: "\<exists>df'. apply_column (\<lambda>x. Inr (g x)) column df = Inr df'"
proof -
  let ?h = "\<lambda>row. sequence_err (map (\<lambda>(c, v). if c = column then (Inr (g v) :: py_error + cell) else Inr v)
                                   (zip (df_columns df) row))"
  have inner: "\<exists>y. ?h row = Inr y" for row
    by (rule sequence_err_total) (auto split: prod.splits)
  have "\<exists>rows. sequence_err (map ?h (df_rows df)) = Inr rows"
    by (rule sequence_err_total) (rule inner)
  then obtain rows where "sequence_err (map ?h (df_rows df)) = Inr rows" ..
  then have "apply_column (\<lambda>x. Inr (g x)) column df = Inr (df\<lparr>df_rows := rows\<rparr>)"
    by (simp only: apply_column_def sum.case)
  then show ?thesis ..
qed

lemma for_columns_shape:
  "for_columns f names df = Inr df' \<Longrightarrow>
     df_columns df' = df_columns df \<and> length (df_rows df') = length (df_rows df)"
  by (induction names arbitrary: df)
     (auto split: if_splits sum.splits dest: apply_column_shape)

lemma for_columns_other:
  "for_columns f names df = Inr df' \<Longrightarrow> c \<notin> set names \<Longrightarrow> df_column df' c = df_column df c"
proof (induction names arbitrary: df)
  case Nil
  then show ?case by simp
next
  case (Cons n names)
  show ?case
  proof (cases "n \<in> set (df_columns df)")
    case True
    with Cons.prems obtain df1 where 1: "apply_column f n df = Inr df1"
      and 2: "for_columns f names df1 = Inr df'"
      by (auto split: sum.splits)
    have "df_column df1 c = df_column df c"
      using 1 Cons.prems(2) by (intro apply_column_other) auto
    moreover have "df_column df' c = df_column df1 c"
      using 2 Cons.prems(2) by (intro Cons.IH) auto
    ultimately show ?thesis by simp
  next
    case False
    with Cons show ?thesis by simp
  qed
qed

lemma df_column_absent:
  "c \<notin> set (df_columns df) \<Longrightarrow> df_column df c = map (\<lambda>row. None) (df_rows df)"
  by (simp add: df_column_def row_get_absent)

lemma for_columns_same:
  "for_columns (\<lambda>x. Inr (g x)) names df = Inr df' \<Longrightarrow> c \<in> set names \<Longrightarrow> distinct names \<Longrightarrow>
     df_column df' c = map (map_option g) (df_column df c)"
proof (induction names arbitrary: df)
  case Nil
  then show ?case by simp
next
  case (Cons n names)
  show ?case
  proof (cases "n \<in> set (df_columns df)")
    case True
    with Cons.prems obtain df1 where 1: "apply_column (\<lambda>x. Inr (g x)) n df = Inr df1"
      and 2: "for_columns (\<lambda>x. Inr (g x)) names df1 = Inr df'"
      by (auto split: sum.splits)
    show ?thesis
    proof (cases "c = n")
      case True
      then have "c \<notin> set names" using Cons.prems(3) by simp
      then have "df_column df' c = df_column df1 c" using 2 by (intro for_columns_other)
      then show ?thesis using apply_column_same [OF 1] True by simp
    next
      case False
      then have "df_column df1 c = df_column df c" using 1 by (intro apply_column_other)
      moreover have "df_column df' c = map (map_option g) (df_column df1 c)"
        using 2 False Cons.prems by (intro Cons.IH) auto
      ultimately show ?thesis by simp
    qed
  next
    case False
    note absent = this
    with Cons.prems have 2: "for_columns (\<lambda>x. Inr (g x)) names df = Inr df'" by simp
    show ?thesis
    proof (cases "c = n")
      case True
      then have "c \<notin> set names" using Cons.prems(3) by simp
      then have "df_column df' c = df_column df c" using 2 by (intro for_columns_other)
      then show ?thesis using absent True by (simp add: df_column_absent comp_def)
    next
      case False
      then show ?thesis using 2 Cons.prems by (intro Cons.IH) auto
    qed
  qed
qed

lemma for_columns_total: "\<exists>df'. for_columns (\<lambda>x. Inr (g x)) names df = Inr df'"
proof (induction names arbitrary: df)
  case Nil
  then show ?case by simp
next
  case (Cons n names)
  obtain df1 where "apply_column (\<lambda>x. Inr (g x)) n df = Inr df1"
    using apply_column_total by blast
  then show ?case using Cons [of df1] Cons [of df] by auto
qed

lemma for_columns_absent:
  "set names \<inter> set (df_columns df) = {} \<Longrightarrow> for_columns f names df = Inr df"
  by (induction names) auto

lemma sequence_err_Inr_iff:
  "(\<exists>ys. sequence_err (map h xs) = Inr ys) \<longleftrightarrow> (\<forall>x \<in> set xs. \<exists>y. h x = Inr y)"
  by (induction xs) (auto split: sum.splits)

lemma zip_distinct_lookup:
  assumes "distinct cols"
  shows "(c, v) \<in> set (zip cols row) \<longleftrightarrow> row_get cols row c = Some v"
proof -
  have "distinct (map fst (zip cols row))"
    using assms by (simp add: map_fst_zip_take)
  then show ?thesis unfolding row_get_def by simp
qed

lemma apply_column_returns_iff:
  assumes "distinct (df_columns df)"
  shows "(\<exists>df'. apply_column f column df = Inr df') \<longleftrightarrow>
         (\<forall>v. Some v \<in> set (df_column df column) \<longrightarrow> (\<exists>y. f v = Inr y))"
proof -
  let ?g = "\<lambda>(c, v). if c = column then f v else Inr v"
  let ?h = "\<lambda>row. sequence_err (map ?g (zip (df_columns df) row))"
  have "(\<exists>df'. apply_column f column df = Inr df') \<longleftrightarrow>
        (\<exists>rows. sequence_err (map ?h (df_rows df)) = Inr rows)"
    by (auto simp: apply_column_def split: sum.splits)
  also have "\<dots> \<longleftrightarrow> (\<forall>row \<in> set (df_rows df). \<exists>y. ?h row = Inr y)"
    by (rule sequence_err_Inr_iff)
  also have "\<dots> \<longleftrightarrow> (\<forall>row \<in> set (df_rows df). \<forall>cv \<in> set (zip (df_columns df) row). \<exists>y. ?g cv = Inr y)"
    by (simp only: sequence_err_Inr_iff)
  also have "\<dots> \<longleftrightarrow> (\<forall>row \<in> set (df_rows df). \<forall>v. (column, v) \<in> set (zip (df_columns df) row) \<longrightarrow> (\<exists>y. f v = Inr y))"
    by (rule ball_cong [OF refl]) (force split: if_splits)
  also have "\<dots> \<longleftrightarrow> (\<forall>row \<in> set (df_rows df). \<forall>v. row_get (df_columns df) row column = Some v \<longrightarrow> (\<exists>y. f v = Inr y))"
    by (simp only: zip_distinct_lookup [OF assms])
  also have "\<dots> \<longleftrightarrow> (\<forall>v. Some v \<in> set (df_column df column) \<longrightarrow> (\<exists>y. f v = Inr y))"
    by (auto simp: df_column_def image_iff) metis
  finally show ?thesis .
qed

lemma for_columns_returns_iff:
  assumes "distinct (df_columns df)" "distinct names"
  shows "(\<exists>df'. for_columns f names df = Inr df') \<longleftrightarrow>
         (\<forall>c \<in> set names. \<forall>v. Some v \<in> set (df_column df c) \<longrightarrow> (\<exists>y. f v = Inr y))"
  using assms
proof (induction names arbitrary: df)
  case Nil
  then show ?case by simp
next
  case (Cons n names)
  let ?P = "\<lambda>df c. \<forall>v. Some v \<in> set (df_column df c) \<longrightarrow> (\<exists>y. f v = Inr y)"
  have dn: "distinct names" "n \<notin> set names" using Cons.prems(2) by simp_all
  show ?case
  proof (cases "n \<in> set (df_columns df)")
    case False
    then have "?P df n" by (auto simp: df_column_absent)
    moreover have "for_columns f (n # names) df = for_columns f names df"
      using False by simp
    ultimately show ?thesis using Cons.IH [OF Cons.prems(1) dn(1)] by simp
  next
    case True
    show ?thesis
    proof (cases "apply_column f n df")
      case (Inl e)
      then have "\<not> ?P df n"
        using apply_column_returns_iff [OF Cons.prems(1), of f n] by simp
      moreover have "for_columns f (n # names) df = Inl e" using True Inl by simp
      ultimately show ?thesis by auto
    next
      case (Inr df1)
      then have p: "?P df n"
        using apply_column_returns_iff [OF Cons.prems(1), of f n] by auto
      have c1: "distinct (df_columns df1)"
        using apply_column_shape(1) [OF Inr] Cons.prems(1) by simp
      have same: "df_column df1 c = df_column df c" if "c \<in> set names" for c
        using Inr that dn(2) by (intro apply_column_other) auto
      have "for_columns f (n # names) df = for_columns f names df1" using True Inr by simp
      then have "(\<exists>df'. for_columns f (n # names) df = Inr df') \<longleftrightarrow>
                 (\<forall>c \<in> set names. ?P df1 c)"
        using Cons.IH [OF c1 dn(1)] by simp
      also have "\<dots> \<longleftrightarrow> (\<forall>c \<in> set names. ?P df c)" using same by simp
      finally show ?thesis using p by simp
    qed
  qed
qed

subsection \<open>The stager's dataframe normalization\<close>

lemma column_tables_disjoint:
  "set DATE_COLUMNS \<inter> set STRUCTURED_COLUMNS = {}"
  "set DATE_COLUMNS \<inter> set STRINGIFIED_COLUMNS = {}"
  "set STRUCTURED_COLUMNS \<inter> set STRINGIFIED_COLUMNS = {}"
  "distinct STRUCTURED_COLUMNS" "distinct STRINGIFIED_COLUMNS"
  by (simp_all add: DATE_COLUMNS_def STRUCTURED_COLUMNS_def STRINGIFIED_COLUMNS_def)

lemma conform_dataframe_Inr:
  assumes "conform_dataframe env df = Inr df'"
  obtains df1 df2 where
    "for_columns (date_cell env) DATE_COLUMNS df = Inr df1"
    "for_columns (\<lambda>x. Inr (structured_cell env x)) STRUCTURED_COLUMNS df1 = Inr df2"
    "for_columns (\<lambda>x. Inr (str_cell env x)) STRINGIFIED_COLUMNS df2 = Inr df'"
  using assms unfolding conform_dataframe_def
  by (auto split: sum.splits)

text \<open>Only a date column can make the normalization raise.\<close>

lemma conform_dataframe_no_dates:
  assumes "set DATE_COLUMNS \<inter> set (df_columns df) = {}"
  shows "\<exists>df'. conform_dataframe env df = Inr df'"
proof -
  have 1: "for_columns (date_cell env) DATE_COLUMNS df = Inr df"
    using assms by (rule for_columns_absent)
  obtain df2 where 2: "for_columns (\<lambda>x. Inr (structured_cell env x)) STRUCTURED_COLUMNS df = Inr df2"
    using for_columns_total by blast
  obtain df3 where 3: "for_columns (\<lambda>x. Inr (str_cell env x)) STRINGIFIED_COLUMNS df2 = Inr df3"
    using for_columns_total by blast
  show ?thesis by (simp add: conform_dataframe_def 1 2 3)
qed

text \<open>
  The normalization returns exactly when the date normalizer accepts every cell of the
  date columns of the frame.
\<close>

lemma conform_dataframe_returns_iff:
  assumes "wf_dataframe df"
  shows "(\<exists>df'. conform_dataframe env df = Inr df') \<longleftrightarrow>
         (\<forall>c \<in> set DATE_COLUMNS. \<forall>v. Some v \<in> set (df_column df c) \<longrightarrow>
             (\<exists>d. snd (parse_date_string env v) = Inr d))"
proof -
  have d: "distinct (df_columns df)" using assms by (simp add: wf_dataframe_def)
  have dd: "distinct DATE_COLUMNS" by (simp add: DATE_COLUMNS_def)
  have cell: "(\<exists>y. date_cell env v = Inr y) \<longleftrightarrow> (\<exists>d. snd (parse_date_string env v) = Inr d)" for v
    by (cases "snd (parse_date_string env v)") (simp_all add: date_cell_def)
  have "(\<exists>df'. conform_dataframe env df = Inr df') \<longleftrightarrow>
        (\<exists>df1. for_columns (date_cell env) DATE_COLUMNS df = Inr df1)"
  proof
    assume "\<exists>df'. conform_dataframe env df = Inr df'"
    then show "\<exists>df1. for_columns (date_cell env) DATE_COLUMNS df = Inr df1"
      by (auto elim: conform_dataframe_Inr)
  next
    assume "\<exists>df1. for_columns (date_cell env) DATE_COLUMNS df = Inr df1"
    then obtain df1 where 1: "for_columns (date_cell env) DATE_COLUMNS df = Inr df1" ..
    obtain df2 where 2: "for_columns (\<lambda>x. Inr (structured_cell env x)) STRUCTURED_COLUMNS df1 = Inr df2"
      using for_columns_total by blast
    obtain df3 where 3: "for_columns (\<lambda>x. Inr (str_cell env x)) STRINGIFIED_COLUMNS df2 = Inr df3"
      using for_columns_total by blast
    show "\<exists>df'. conform_dataframe env df = Inr df'"
      by (simp add: conform_dataframe_def 1 2 3)
  qed
  also have "\<dots> \<longleftrightarrow> (\<forall>c \<in> set DATE_COLUMNS. \<forall>v. Some v \<in> set (df_column df c) \<longrightarrow>
             (\<exists>y. date_cell env v = Inr y))"
    by (rule for_columns_returns_iff [OF d dd])
  finally show ?thesis by (simp only: cell)
qed

text \<open>What a normalization that returns has done to the structured columns and to the others.\<close>

lemma conform_dataframe_structured:
  assumes ok: "conform_dataframe env df = Inr df'"
  shows
   "df_columns df' = df_columns df \<and> length (df_rows df') = length (df_rows df) \<and>
    (\<forall>c \<in> set STRUCTURED_COLUMNS.
        df_column df' c = map (map_option (structured_cell env)) (df_column df c)) \<and>
    (\<forall>v. structured_cell env v =
        (case v of
           Py (JList xs) \<Rightarrow> Py (JStr (json_dumps env (JList xs)))
         | Py (JDict kvs) \<Rightarrow> Py (JStr (json_dumps env (JDict kvs)))
         | _ \<Rightarrow> Py JNull)) \<and>
    (\<forall>c. c \<notin> set DATE_COLUMNS \<union> set STRUCTURED_COLUMNS \<union> set STRINGIFIED_COLUMNS \<longrightarrow>
        df_column df' c = df_column df c)"
proof -
  from ok obtain df1 df2 where
    1: "for_columns (date_cell env) DATE_COLUMNS df = Inr df1" and
    2: "for_columns (\<lambda>x. Inr (structured_cell env x)) STRUCTURED_COLUMNS df1 = Inr df2" and
    3: "for_columns (\<lambda>x. Inr (str_cell env x)) STRINGIFIED_COLUMNS df2 = Inr df'"
    by (rule conform_dataframe_Inr)
  have shape: "df_columns df' = df_columns df \<and> length (df_rows df') = length (df_rows df)"
    using for_columns_shape [OF 1] for_columns_shape [OF 2] for_columns_shape [OF 3] by simp
  have structured: "df_column df' c = map (map_option (structured_cell env)) (df_column df c)"
    if c: "c \<in> set STRUCTURED_COLUMNS" for c
  proof -
    have "c \<notin> set DATE_COLUMNS" "c \<notin> set STRINGIFIED_COLUMNS"
      using c column_tables_disjoint by blast+
    then have "df_column df1 c = df_column df c" "df_column df' c = df_column df2 c"
      using 1 3 by (simp_all add: for_columns_other)
    moreover have "df_column df2 c = map (map_option (structured_cell env)) (df_column df1 c)"
      using 2 c column_tables_disjoint(4) by (rule for_columns_same)
    ultimately show ?thesis by simp
  qed
  have cell: "structured_cell env v =
        (case v of
           Py (JList xs) \<Rightarrow> Py (JStr (json_dumps env (JList xs)))
         | Py (JDict kvs) \<Rightarrow> Py (JStr (json_dumps env (JDict kvs)))
         | _ \<Rightarrow> Py JNull)" for v
    by (cases "(env, v)" rule: structured_cell.cases) simp_all
  have other: "df_column df' c = df_column df c"
    if "c \<notin> set DATE_COLUMNS \<union> set STRUCTURED_COLUMNS \<union> set STRINGIFIED_COLUMNS" for c
    using that for_columns_other [OF 1, of c] for_columns_other [OF 2, of c]
      for_columns_other [OF 3, of c] by simp
  show ?thesis using shape structured cell other by blast
qed

text \<open>What a normalization that returns has done to the stringified columns.\<close>

lemma conform_dataframe_stringified:
  assumes ok: "conform_dataframe env df = Inr df'"
  shows
   "(\<forall>c \<in> set STRINGIFIED_COLUMNS.
        df_column df' c = map (map_option (\<lambda>v. Py (JStr (py_str env v)))) (df_column df c)) \<and>
    py_str env (Py JNull) = ''None''"
proof -
  from ok obtain df1 df2 where
    1: "for_columns (date_cell env) DATE_COLUMNS df = Inr df1" and
    2: "for_columns (\<lambda>x. Inr (structured_cell env x)) STRUCTURED_COLUMNS df1 = Inr df2" and
    3: "for_columns (\<lambda>x. Inr (str_cell env x)) STRINGIFIED_COLUMNS df2 = Inr df'"
    by (rule conform_dataframe_Inr)
  have "df_column df' c = map (map_option (\<lambda>v. Py (JStr (py_str env v)))) (df_column df c)"
    if c: "c \<in> set STRINGIFIED_COLUMNS" for c
  proof -
    have "c \<notin> set DATE_COLUMNS" "c \<notin> set STRUCTURED_COLUMNS"
      using c column_tables_disjoint by blast+
    then have "df_column df1 c = df_column df c" "df_column df2 c = df_column df1 c"
      using 1 2 by (simp_all add: for_columns_other)
    moreover have "df_column df' c = map (map_option (str_cell env)) (df_column df2 c)"
      using 3 c column_tables_disjoint(5) by (rule for_columns_same)
    moreover have "str_cell env = (\<lambda>v. Py (JStr (py_str env v)))"
      by (rule ext) (simp add: str_cell_def)
    ultimately show ?thesis by simp
  qed
  then show ?thesis by simp
qed

lemma sample_frame_wf: "wf_dataframe sample_frame"
  by (simp add: wf_dataframe_def sample_frame_def)

lemma sample_frame_dates:
  "\<forall>c \<in> set DATE_COLUMNS. \<forall>v. Some v \<in> set (df_column sample_frame c) \<longrightarrow>
      (\<exists>d. snd (parse_date_string sample_env v) = Inr d)"
proof -
  have a: "snd (parse_date_string sample_env (Py (JInt 86400000))) = Inr (Datetime 86400000000)"
    by (simp add: eval_date)
  have b: "snd (parse_date_string sample_env (Py (JStr ''1970-01-02''))) = Inr (Datetime 86400000000)"
    by (simp add: eval_date)
  have c: "df_column sample_frame ''date_created'' =
      [Some (Py (JInt 86400000)), Some (Py (JStr ''1970-01-02''))]"
    "df_column sample_frame ''date_modified'' = [None, None]"
    "df_column sample_frame ''date_processed'' = [None, None]"
    "df_column sample_frame ''last_modified'' = [None, None]"
    by (simp_all add: df_column_def row_get_def sample_frame_def)
  show ?thesis using a b by (auto simp: DATE_COLUMNS_def c)
qed

lemma null_date_frame_raises:
  "conform_dataframe sample_env null_date_frame = Inl TypeError"
  by (simp add: conform_dataframe_def DATE_COLUMNS_def null_date_frame_def apply_column_def
        date_cell_def parse_date_string_def epoch_path_def)

text \<open>
  C7, as the code has it. The date columns are normalized first, so the normalization of a
  well-formed staged dataframe returns exactly when the date normalizer accepts every
  cell of the date columns the frame has; otherwise it raises and no column is
  normalized. When it returns, every cell of a column named \<^verbatim>\<open>permissions_data\<close>,
  \<^verbatim>\<open>record_locator\<close>, \<^verbatim>\<open>points\<close> or \<^verbatim>\<open>links\<close> is \<^verbatim>\<open>json.dumps\<close> of the
  former cell when that was a list or a dict, and \<^verbatim>\<open>None\<close> for every other value;
  the frame keeps its columns and its rows; and every column that is in none of the
  three tables of the function keeps its cells.
\<close>

theorem structured_columns_json:
  assumes wf: "wf_dataframe df"
  shows
   "((\<exists>df'. conform_dataframe env df = Inr df') \<longleftrightarrow>
       (\<forall>c \<in> set DATE_COLUMNS. \<forall>v. Some v \<in> set (df_column df c) \<longrightarrow>
           (\<exists>d. snd (parse_date_string env v) = Inr d))) \<and>
    (\<forall>df'. conform_dataframe env df = Inr df' \<longrightarrow>
       df_columns df' = df_columns df \<and> length (df_rows df') = length (df_rows df) \<and>
       (\<forall>c \<in> set STRUCTURED_COLUMNS.
           df_column df' c = map (map_option (structured_cell env)) (df_column df c)) \<and>
       (\<forall>c. c \<notin> set DATE_COLUMNS \<union> set STRUCTURED_COLUMNS \<union> set STRINGIFIED_COLUMNS \<longrightarrow>
           df_column df' c = df_column df c)) \<and>
    (\<forall>v. structured_cell env v =
        (case v of
           Py (JList xs) \<Rightarrow> Py (JStr (json_dumps env (JList xs)))
         | Py (JDict kvs) \<Rightarrow> Py (JStr (json_dumps env (JDict kvs)))
         | _ \<Rightarrow> Py JNull))"
proof (intro conjI allI impI)
  show "(\<exists>df'. conform_dataframe env df = Inr df') \<longleftrightarrow>
       (\<forall>c \<in> set DATE_COLUMNS. \<forall>v. Some v \<in> set (df_column df c) \<longrightarrow>
           (\<exists>d. snd (parse_date_string env v) = Inr d))"
    by (rule conform_dataframe_returns_iff [OF wf])
next
  fix df' assume ok: "conform_dataframe env df = Inr df'"
  note s = conform_dataframe_structured [OF ok]
  show "df_columns df' = df_columns df" using s by blast
  show "length (df_rows df') = length (df_rows df)" using s by blast
  show "\<forall>c \<in> set STRUCTURED_COLUMNS.
           df_column df' c = map (map_option (structured_cell env)) (df_column df c)"
    using s by blast
  fix c assume "c \<notin> set DATE_COLUMNS \<union> set STRUCTURED_COLUMNS \<union> set STRINGIFIED_COLUMNS"
  then show "df_column df' c = df_column df c" using s by blast
next
  fix v
  show "structured_cell env v =
        (case v of
           Py (JList xs) \<Rightarrow> Py (JStr (json_dumps env (JList xs)))
         | Py (JDict kvs) \<Rightarrow> Py (JStr (json_dumps env (JDict kvs)))
         | _ \<Rightarrow> Py JNull)"
    by (cases "(env, v)" rule: structured_cell.cases) simp_all
qed

theorem structured_columns_json_witness:
  "wf_dataframe sample_frame \<and>
   (\<exists>df'. conform_dataframe sample_env sample_frame = Inr df' \<and>
     df_columns df' = df_columns sample_frame \<and>
     df_column df' ''points'' =
       [Some (Py (JStr ''[1, 2]'')), Some (Py (JStr (sample_dumps (JDict [(''k'', JNull)]))))] \<and>
     df_column df' ''links'' = [Some (Py JNull), Some (Py JNull)] \<and>
     df_column df' ''id'' = [Some (Py (JStr ''a'')), Some (Py (JStr ''b''))])"
proof -
  note t = structured_columns_json [OF sample_frame_wf, of sample_env]
  from t sample_frame_dates obtain df' where
    e: "conform_dataframe sample_env sample_frame = Inr df'"
    by blast
  have "''points'' \<in> set STRUCTURED_COLUMNS" "''links'' \<in> set STRUCTURED_COLUMNS"
    by (simp_all add: STRUCTURED_COLUMNS_def)
  with t e have
    "df_column df' ''points'' =
       map (map_option (structured_cell sample_env)) (df_column sample_frame ''points'')"
    "df_column df' ''links'' =
       map (map_option (structured_cell sample_env)) (df_column sample_frame ''links'')"
    by blast+
  moreover have
    "map (map_option (structured_cell sample_env)) (df_column sample_frame ''points'') =
       [Some (Py (JStr ''[1, 2]'')), Some (Py (JStr (sample_dumps (JDict [(''k'', JNull)]))))]"
    "map (map_option (structured_cell sample_env)) (df_column sample_frame ''links'') =
       [Some (Py JNull), Some (Py JNull)]"
    by code_simp+
  moreover have "''id'' \<notin> set DATE_COLUMNS \<union> set STRUCTURED_COLUMNS \<union> set STRINGIFIED_COLUMNS"
    by (simp add: DATE_COLUMNS_def STRUCTURED_COLUMNS_def STRINGIFIED_COLUMNS_def)
  with t e have "df_column df' ''id'' = df_column sample_frame ''id''" by blast
  moreover have "df_column sample_frame ''id'' = [Some (Py (JStr ''a'')), Some (Py (JStr ''b''))]"
    by code_simp
  moreover have "df_columns df' = df_columns sample_frame" using t e by blast
  ultimately show ?thesis using e sample_frame_wf by auto
qed

text \<open>
  The claim as the specification words it, for every staged dataframe, fails on a frame
  whose date column holds \<^verbatim>\<open>None\<close>: the date loop raises TypeError before the loop
  over the structured columns starts, and the list under \<^verbatim>\<open>points\<close> is not serialized.
\<close>

theorem structured_columns_raise_counterexample:
  "df_column null_date_frame ''points'' = [Some (Py (JList [JInt 1]))] \<and>
   conform_dataframe sample_env null_date_frame = Inl TypeError"
  by (simp add: null_date_frame_raises) (simp add: df_column_def row_get_def null_date_frame_def)

text \<open>
  C10, as the code has it. The normalization of a well-formed staged dataframe returns
  exactly when the date normalizer accepts every cell of the date columns the frame has.
  When it returns, every cell of a column named \<^verbatim>\<open>version\<close>, \<^verbatim>\<open>page_number\<close> or
  \<^verbatim>\<open>regex_metadata\<close> is \<^verbatim>\<open>str\<close> of the former cell, whatever the cell was;
  \<^verbatim>\<open>str(None)\<close> is the text \<^verbatim>\<open>None\<close>.
\<close>

theorem stringified_columns_str:
  assumes wf: "wf_dataframe df"
  shows
   "((\<exists>df'. conform_dataframe env df = Inr df') \<longleftrightarrow>
       (\<forall>c \<in> set DATE_COLUMNS. \<forall>v. Some v \<in> set (df_column df c) \<longrightarrow>
           (\<exists>d. snd (parse_date_string env v) = Inr d))) \<and>
    (\<forall>df'. conform_dataframe env df = Inr df' \<longrightarrow>
       (\<forall>c \<in> set STRINGIFIED_COLUMNS.
           df_column df' c = map (map_option (\<lambda>v. Py (JStr (py_str env v)))) (df_column df c))) \<and>
    py_str env (Py JNull) = ''None''"
proof (intro conjI allI impI)
  show "(\<exists>df'. conform_dataframe env df = Inr df') \<longleftrightarrow>
       (\<forall>c \<in> set DATE_COLUMNS. \<forall>v. Some v \<in> set (df_column df c) \<longrightarrow>
           (\<exists>d. snd (parse_date_string env v) = Inr d))"
    by (rule conform_dataframe_returns_iff [OF wf])
next
  fix df' assume ok: "conform_dataframe env df = Inr df'"
  show "\<forall>c \<in> set STRINGIFIED_COLUMNS.
           df_column df' c = map (map_option (\<lambda>v. Py (JStr (py_str env v)))) (df_column df c)"
    using conform_dataframe_stringified [OF ok] by blast
next
  show "py_str env (Py JNull) = ''None''" by simp
qed

theorem stringified_columns_str_witness:
  "wf_dataframe sample_frame \<and>
   (\<exists>df'. conform_dataframe sample_env sample_frame = Inr df' \<and>
     df_column df' ''version'' = [Some (Py (JStr ''None'')), Some (Py (JStr ''1.0''))] \<and>
     df_column df' ''page_number'' = [Some (Py (JStr ''7'')), Some (Py (JStr ''None''))])"
proof -
  note t = stringified_columns_str [OF sample_frame_wf, of sample_env]
  from t sample_frame_dates obtain df' where
    e: "conform_dataframe sample_env sample_frame = Inr df'"
    by blast
  have "''version'' \<in> set STRINGIFIED_COLUMNS" "''page_number'' \<in> set STRINGIFIED_COLUMNS"
    by (simp_all add: STRINGIFIED_COLUMNS_def)
  with t e have
    "df_column df' ''version'' =
       map (map_option (\<lambda>v. Py (JStr (py_str sample_env v)))) (df_column sample_frame ''version'')"
    "df_column df' ''page_number'' =
       map (map_option (\<lambda>v. Py (JStr (py_str sample_env v)))) (df_column sample_frame ''page_number'')"
    by blast+
  moreover have
    "map (map_option (\<lambda>v. Py (JStr (py_str sample_env v)))) (df_column sample_frame ''version'') =
       [Some (Py (JStr ''None'')), Some (Py (JStr ''1.0''))]"
    "map (map_option (\<lambda>v. Py (JStr (py_str sample_env v)))) (df_column sample_frame ''page_number'') =
       [Some (Py (JStr ''7'')), Some (Py (JStr ''None''))]"
    by code_simp+
  ultimately show ?thesis using e sample_frame_wf by auto
qed

text \<open>
  The claim as the specification words it, for every staged dataframe, fails on the same
  frame: the date loop raises TypeError before the loop over the stringified columns
  starts, and the cell under \<^verbatim>\<open>version\<close> stays the \<^verbatim>\<open>int\<close> it was.
\<close>

theorem stringified_columns_raise_counterexample:
  "df_column null_date_frame ''version'' = [Some (Py (JInt 2))] \<and>
   conform_dataframe sample_env null_date_frame = Inl TypeError"
  by (simp add: null_date_frame_raises) (simp add: df_column_def row_get_def null_date_frame_def)

subsection \<open>The stager's element conformance\<close>

lemma record_id_not_a_column: "RECORD_ID_LABEL \<notin> set COLUMNS"
  by (simp add: RECORD_ID_LABEL_def COLUMNS_def)

lemma filter_columns_restrict:
  "filter (\<lambda>(k, v). k \<in> A) xs = AList.restrict A xs"
  by (simp add: AList.restrict_eq)

lemma conform_dict_Inr:
  assumes "conform_dict upd enh ed fd = Inr element"
  obtains data where
    "merged_data upd ed = Inr data"
    "element = AList.update RECORD_ID_LABEL (JStr (fd_identifier fd))
       (AList.restrict (set COLUMNS) (AList.update ''id'' (JStr (enh data fd)) data))"
  using assms unfolding conform_dict_def
  by (auto split: sum.splits simp: filter_columns_restrict Let_def)

text \<open>
  C9, as the code has it. The staged element has no key outside the allow-list but the
  record-linkage key, which it always has, holding the identifier of the file. Of the
  keys of the merged mapping, those outside the allow-list are absent from the result,
  except the record-linkage key itself; those inside it, other than \<^verbatim>\<open>id\<close>, keep
  their values, and \<^verbatim>\<open>id\<close> holds the enhanced identifier.
\<close>

theorem conform_dict_keys:
  assumes ok: "conform_dict upd enh ed fd = Inr element"
  shows
   "fst ` set element \<subseteq> set COLUMNS \<union> {RECORD_ID_LABEL} \<and>
    map_of element RECORD_ID_LABEL = Some (JStr (fd_identifier fd)) \<and>
    (\<exists>data. merged_data upd ed = Inr data \<and>
       (\<forall>k \<in> fst ` set data. k \<notin> set COLUMNS \<longrightarrow> k \<noteq> RECORD_ID_LABEL \<longrightarrow>
            k \<notin> fst ` set element) \<and>
       (\<forall>k \<in> set COLUMNS. k \<noteq> ''id'' \<longrightarrow> map_of element k = map_of data k) \<and>
       map_of element ''id'' = Some (JStr (enh data fd)))"
proof -
  from ok obtain data where m: "merged_data upd ed = Inr data"
    and e: "element = AList.update RECORD_ID_LABEL (JStr (fd_identifier fd))
       (AList.restrict (set COLUMNS) (AList.update ''id'' (JStr (enh data fd)) data))"
    by (rule conform_dict_Inr)
  have keys: "fst ` set element \<subseteq> set COLUMNS \<union> {RECORD_ID_LABEL}"
    unfolding e by (auto simp: dom_update)
  have rid: "map_of element RECORD_ID_LABEL = Some (JStr (fd_identifier fd))"
    unfolding e by (simp add: update_conv')
  have kept: "map_of element k = map_of data k" if "k \<in> set COLUMNS" "k \<noteq> ''id''" for k
  proof -
    have "k \<noteq> RECORD_ID_LABEL" using that(1) record_id_not_a_column by blast
    then show ?thesis
      unfolding e using that by (simp add: update_conv' restr_conv' restrict_map_def)
  qed
  have "''id'' \<in> set COLUMNS" "''id'' \<noteq> RECORD_ID_LABEL"
    by (simp_all add: COLUMNS_def RECORD_ID_LABEL_def)
  then have ident: "map_of element ''id'' = Some (JStr (enh data fd))"
    unfolding e by (simp add: update_conv' restr_conv' restrict_map_def)
  show ?thesis using keys rid m kept ident by blast
qed

text \<open>The conformance returns whenever the metadata and its two nested fields are dicts.\<close>

lemma conform_dict_succeeds:
  assumes "map_of ed ''metadata'' = None \<or>
     (\<exists>m. map_of ed ''metadata'' = Some (JDict m) \<and>
        (map_of m ''data_source'' = None \<or> (\<exists>d. map_of m ''data_source'' = Some (JDict d))) \<and>
        (map_of m ''coordinates'' = None \<or> (\<exists>d. map_of m ''coordinates'' = Some (JDict d))))"
  shows "\<exists>element. conform_dict upd enh ed fd = Inr element"
proof -
  have "\<exists>data. merged_data upd ed = Inr data"
    using assms
    by (auto simp: merged_data_def dict_pop_def delete_conv' split: option.splits)
  then show ?thesis by (auto simp: conform_dict_def Let_def)
qed

theorem conform_dict_keys_witness:
  "conform_dict sample_upd sample_enh sample_element \<lparr>fd_identifier = ''f1''\<rparr> =
     Inr [(''element_id'', JStr ''e1''), (''text'', JStr ''hello''), (''type'', JStr ''Title''),
          (''filename'', JStr ''a.pdf''), (''page_number'', JInt 1),
          (''url'', JStr ''s3://b/a.pdf''), (''points'', JList [JInt 0, JInt 1]),
          (''system'', JStr ''px''), (''id'', JStr ''e1f1''), (''record_id'', JStr ''f1'')] \<and>
   map_of [(''element_id'', JStr ''e1''), (''text'', JStr ''hello''), (''type'', JStr ''Title''),
          (''filename'', JStr ''a.pdf''), (''page_number'', JInt 1),
          (''url'', JStr ''s3://b/a.pdf''), (''points'', JList [JInt 0, JInt 1]),
          (''system'', JStr ''px''), (''id'', JStr ''e1f1''), (''record_id'', JStr ''f1'')]
     RECORD_ID_LABEL = Some (JStr ''f1'')"
proof -
  have e: "conform_dict sample_upd sample_enh sample_element \<lparr>fd_identifier = ''f1''\<rparr> =
     Inr [(''element_id'', JStr ''e1''), (''text'', JStr ''hello''), (''type'', JStr ''Title''),
          (''filename'', JStr ''a.pdf''), (''page_number'', JInt 1),
          (''url'', JStr ''s3://b/a.pdf''), (''points'', JList [JInt 0, JInt 1]),
          (''system'', JStr ''px''), (''id'', JStr ''e1f1''), (''record_id'', JStr ''f1'')]"
    by code_simp
  from conform_dict_keys [OF e] e show ?thesis by simp
qed

text \<open>
  The claim as the specification words it fails on an element that already carries the
  record-linkage key (a staged element staged again): \<^verbatim>\<open>record_id\<close> is a key of the
  merged mapping, it is outside the allow-list, and the result has it.
\<close>

theorem conform_dict_record_id_counterexample:
  "merged_data sample_upd [(''record_id'', JStr ''old''), (''text'', JStr ''t'')] =
     Inr [(''record_id'', JStr ''old''), (''text'', JStr ''t'')] \<and>
   ''record_id'' \<notin> set COLUMNS \<and>
   conform_dict sample_upd sample_enh [(''record_id'', JStr ''old''), (''text'', JStr ''t'')]
       \<lparr>fd_identifier = ''f1''\<rparr> =
     Inr [(''text'', JStr ''t''), (''id'', JStr ''Nonef1''), (''record_id'', JStr ''f1'')]"
  by code_simp

subsection \<open>The downloader's filename identifier\<close>

lemma nibble_less_16: "unat (x AND (15 :: w32)) < 16"
proof -
  have "x AND 15 \<le> (15 :: w32)" by (rule word_and_le1)
  then have "unat (x AND 15) \<le> unat (15 :: w32)" by (simp only: word_le_nat_alt)
  then show ?thesis by simp
qed

lemma hex32_length: "length (hex32 w) = 8"
  by (simp add: hex32_def)

lemma hex32_chars: "set (hex32 w) \<subseteq> set ''0123456789abcdef''"
proof
  fix c assume "c \<in> set (hex32 w)"
  then obtain i where "c = ''0123456789abcdef'' ! unat (drop_bit (4 * (7 - i)) w AND 15)"
    by (auto simp: hex32_def hex_digit_def)
  moreover have "unat (drop_bit (4 * (7 - i)) w AND 15) < length ''0123456789abcdef''"
    using nibble_less_16 [of "drop_bit (4 * (7 - i)) w"] by simp
  ultimately show "c \<in> set ''0123456789abcdef''"
    by (simp only: nth_mem)
qed

lemma hexdigest_length: "length (hexdigest s) = 64"
  by (simp add: hexdigest_def hex32_length split: prod.splits)

lemma hexdigest_chars: "set (hexdigest s) \<subseteq> set ''0123456789abcdef''"
proof -
  obtain a b c d e f g h where s: "s = (a, b, c, d, e, f, g, h)"
    by (cases s) auto
  show ?thesis
    unfolding s hexdigest_def prod.case set_append
    by (intro Un_least hex32_chars)
qed

lemma fields_hash_length: "length (fields_hash fs) = 8"
  by (simp add: fields_hash_def hexdigest_length)

lemma fields_hash_chars: "set (fields_hash fs) \<subseteq> set ''0123456789abcdef''"
  unfolding fields_hash_def
  using set_take_subset hexdigest_chars by (rule subset_trans)

text \<open>
  C5, as the code has it. The identifier is \<open>table-record\<close> when no field is requested,
  and \<open>table-record-h\<close> otherwise, \<open>h\<close> being the first 8 hexadecimal digits of the
  SHA-256 digest of the comma-joined field list. Two requests with fields give the same
  identifier exactly when these 8 digits agree; a request without fields never shares
  its identifier with one that has some.
\<close>

theorem get_identifier_format:
  "(dl_fields cfg = [] \<longrightarrow> get_identifier cfg t r = t @ ''-'' @ r) \<and>
   (dl_fields cfg \<noteq> [] \<longrightarrow>
      get_identifier cfg t r = t @ ''-'' @ r @ ''-'' @ fields_hash (dl_fields cfg)) \<and>
   fields_hash fs = take 8 (hexdigest (sha256 (py_join '','' fs))) \<and>
   length (fields_hash fs) = 8 \<and>
   set (fields_hash fs) \<subseteq> set ''0123456789abcdef'' \<and>
   (dl_fields cfg \<noteq> [] \<longrightarrow> dl_fields cfg' \<noteq> [] \<longrightarrow>
      (get_identifier cfg t r = get_identifier cfg' t r \<longleftrightarrow>
       fields_hash (dl_fields cfg) = fields_hash (dl_fields cfg'))) \<and>
   (dl_fields cfg = [] \<longrightarrow> dl_fields cfg' \<noteq> [] \<longrightarrow>
      get_identifier cfg t r \<noteq> get_identifier cfg' t r)"
proof -
  have 1: "dl_fields cfg = [] \<longrightarrow> get_identifier cfg t r = t @ ''-'' @ r"
    by (simp add: get_identifier_def)
  have 2: "dl_fields c \<noteq> [] \<longrightarrow>
      get_identifier c t r = t @ ''-'' @ r @ ''-'' @ fields_hash (dl_fields c)" for c
    by (simp add: get_identifier_def)
  have 3: "fields_hash fs = take 8 (hexdigest (sha256 (py_join '','' fs)))"
    by (simp only: fields_hash_def)
  have 4: "dl_fields cfg \<noteq> [] \<longrightarrow> dl_fields cfg' \<noteq> [] \<longrightarrow>
      (get_identifier cfg t r = get_identifier cfg' t r \<longleftrightarrow>
       fields_hash (dl_fields cfg) = fields_hash (dl_fields cfg'))"
    by (simp add: get_identifier_def)
  have 5: "dl_fields cfg = [] \<longrightarrow> dl_fields cfg' \<noteq> [] \<longrightarrow>
      get_identifier cfg t r \<noteq> get_identifier cfg' t r"
    by (simp add: get_identifier_def)
  show ?thesis
    using 1 2 [of cfg] 3 fields_hash_length [of fs] fields_hash_chars [of fs] 4 5
    by (intro conjI)
qed

theorem get_identifier_format_witness:
  "get_identifier \<lparr>dl_fields = []\<rparr> ''elements'' ''r1'' = ''elements-r1'' \<and>
   get_identifier \<lparr>dl_fields = [''id'', ''text'']\<rparr> ''elements'' ''r1'' =
     ''elements-r1-'' @ fields_hash [''id'', ''text''] \<and>
   length (fields_hash [''id'', ''text'']) = 8 \<and>
   get_identifier \<lparr>dl_fields = []\<rparr> ''elements'' ''r1'' \<noteq>
     get_identifier \<lparr>dl_fields = [''id'', ''text'']\<rparr> ''elements'' ''r1''"
  using get_identifier_format [of "\<lparr>dl_fields = []\<rparr>" "''elements''" "''r1''"
      "[''id'', ''text'']" "\<lparr>dl_fields = [''id'', ''text'']\<rparr>"]
    get_identifier_format [of "\<lparr>dl_fields = [''id'', ''text'']\<rparr>" "''elements''" "''r1''"
      "[''id'', ''text'']" "\<lparr>dl_fields = []\<rparr>"]
  by simp

text \<open>
  The claim as the specification words it fails: joining with commas forgets where one
  field name ends, so the one field \<^verbatim>\<open>a,b\<close> and the two fields \<^verbatim>\<open>a\<close>, \<^verbatim>\<open>b\<close> are
  hashed as the same text. (Eight hexadecimal digits are 32 bits, so other distinct
  requests collide as well.)
\<close>

theorem get_identifier_collision_counterexample:
  "set [''a,b''] \<noteq> set [''a'', ''b''] \<and>
   get_identifier \<lparr>dl_fields = [''a,b'']\<rparr> ''elements'' ''r1'' =
   get_identifier \<lparr>dl_fields = [''a'', ''b'']\<rparr> ''elements'' ''r1''"
  by (simp add: get_identifier_def fields_hash_def)

text \<open>
  The model of SHA-256 on the test vector of FIPS 180-4, and the digits of a field list.
\<close>

lemma sha256_abc:
  "hexdigest (sha256 ''abc'') =
     ''ba7816bf8f01cfea414140de5dae2223b00361a396177a9cb410ff61f20015ad''"
  by code_simp

lemma fields_hash_id_text: "fields_hash [''id'', ''text''] = ''0d633f47''"
  by code_simp

subsection \<open>The uploader\<close>

















text \<open>
  The scenario of the specification, from the first upload on: the table holds one row
  for \<^verbatim>\<open>r1\<close> with the text \<^verbatim>\<open>hello\<close>, and after the upload of a batch for \<^verbatim>\<open>r1\<close>
  with the text \<^verbatim>\<open>updated\<close> it holds exactly one row for \<^verbatim>\<open>r1\<close>, the new one.
\<close>

lemma scenario_reupload:
  "filter (linked (tbl_columns sample_table) ''record_id'' ''r1'') (tbl_rows sample_table) =
     [[Py (JStr ''e1''), Py (JStr ''r1''), Py (JStr ''hello'')]] \<and>
   filter (linked (tbl_columns sample_table) ''record_id'' ''r1'')
     (tbl_rows (snd (upload_dataframe sample_env sorted_list_of_set sample_config sample_batch
        \<lparr>fd_identifier = ''r1''\<rparr> sample_table))) =
     [[Py (JStr ''e2''), Py (JStr ''r1''), Py (JStr ''updated'')]]"
  by code_simp

subsection \<open>The schema fit\<close>

lemma drop_columns_empty:
  assumes "wf_dataframe df"
  shows "drop_columns {} df = df"
proof -
  have "map snd (zip (df_columns df) row) = row" if "row \<in> set (df_rows df)" for row
    using assms that by (simp add: wf_dataframe_def)
  then have "map (\<lambda>row. map snd (zip (df_columns df) row)) (df_rows df) = df_rows df"
    by (simp add: map_idI)
  then show ?thesis by (simp add: drop_columns_def)
qed

text \<open>
  C3 fails on the code. \<^verbatim>\<open>_fit_to_schema\<close> compares the columns of the frame with
  themselves, whatever the live columns are: on every well-formed frame it drops nothing,
  adds nothing and logs nothing, and the frame is as it was.
\<close>

theorem fit_to_schema_unchanged:
  assumes "wf_dataframe df" "iter {} = []"
  shows "fit_to_schema iter df columns = ([], df)"
  using assms by (simp add: fit_to_schema_def drop_columns_empty)

text \<open>
  The batch \<open>unfit_batch\<close> has the column \<^verbatim>\<open>extra\<close>, which the table does not have, and lacks
  the column \<^verbatim>\<open>text\<close> of the table. The fit logs nothing and leaves the frame as it
  is, its columns still other than the live ones; and the upload that follows deletes
  the rows of the record, then fails in the store on the column \<^verbatim>\<open>extra\<close>, so that the
  record is left without any row.
\<close>

theorem fit_to_schema_no_fit:
  "wf_dataframe unfit_batch \<and>
   fit_to_schema sorted_list_of_set unfit_batch (tbl_columns sample_table) = ([], unfit_batch) \<and>
   set (df_columns unfit_batch) \<noteq> set (tbl_columns sample_table) \<and>
   fst (upload_dataframe sample_env sorted_list_of_set sample_config unfit_batch
          \<lparr>fd_identifier = ''r1''\<rparr> sample_table) = Some DatabaseError \<and>
   tbl_rows (snd (upload_dataframe sample_env sorted_list_of_set sample_config unfit_batch
          \<lparr>fd_identifier = ''r1''\<rparr> sample_table)) =
     [[Py (JStr ''e0''), Py (JStr ''r0''), Py (JStr ''other'')]]"
proof -
  have w: "wf_dataframe unfit_batch" by (simp add: wf_dataframe_def unfit_batch_def)
  have e: "sorted_list_of_set ({} :: string set) = []" by simp
  have 1: "fit_to_schema sorted_list_of_set unfit_batch (tbl_columns sample_table) = ([], unfit_batch)"
    using fit_to_schema_unchanged [of unfit_batch sorted_list_of_set "tbl_columns sample_table"] w e
    by simp
  have "''extra'' \<in> set (df_columns unfit_batch)" "''extra'' \<notin> set (tbl_columns sample_table)"
    by (simp_all add: unfit_batch_def sample_table_def)
  then have 2: "set (df_columns unfit_batch) \<noteq> set (tbl_columns sample_table)" by blast
  have 3: "fst (upload_dataframe sample_env sorted_list_of_set sample_config unfit_batch
          \<lparr>fd_identifier = ''r1''\<rparr> sample_table) = Some DatabaseError"
    by code_simp
  have 4: "tbl_rows (snd (upload_dataframe sample_env sorted_list_of_set sample_config unfit_batch
          \<lparr>fd_identifier = ''r1''\<rparr> sample_table)) =
     [[Py (JStr ''e0''), Py (JStr ''r0''), Py (JStr ''other'')]]"
    by code_simp
  show ?thesis using w 1 2 3 4 by simp
qed

end
